theory Spec2Isabelle
  imports Main
begin

section \<open>JavaScript values used by the plugin\<close>

text \<open>
  A JavaScript string is a sequence of UTF-16 code units, and \<open>length\<close>, \<open>slice\<close> and
  the regular expressions of the source count code units. A string is therefore a list of
  code units (natural numbers); \<open>js\<close> turns an ASCII literal of the source into that form.
  Literals of the source outside ASCII are written as their code units.
\<close>

type_synonym jstring = "nat list"

definition js :: "string \<Rightarrow> jstring" where
  "js s = map of_char s"

text \<open>
  \<open>String(n)\<close> and \<open>`${n}`\<close> of an integral number: its decimal digits (exact for
  integers below \<open>10^21\<close>, which QQ identifiers and counters are).
\<close>

fun digits :: "nat \<Rightarrow> jstring" where
  "digits n = (if n < 10 then [48 + n] else digits (n div 10) @ [48 + n mod 10])"

declare digits.simps [simp del]

definition string_of_int :: "int \<Rightarrow> jstring" where
  "string_of_int i = (if i < 0 then 45 # digits (nat (- i)) else digits (nat i))"

text \<open>
  Identifiers of the message bus (\<open>user_id\<close>, \<open>group_id\<close>, \<open>qq\<close>) are typed
  \<open>number | string\<close> and may be absent or null; \<open>to_str\<close> is their rendering in a
  template literal and under \<open>String(...)\<close>.
\<close>

datatype js_id = IdNum int | IdStr jstring | IdUndef | IdNull

fun to_str :: "js_id \<Rightarrow> jstring" where
  "to_str (IdNum n) = string_of_int n"
| "to_str (IdStr s) = s"
| "to_str IdUndef = js ''undefined''"
| "to_str IdNull = js ''null''"

section \<open>Configuration (types.ts)\<close>

datatype group_session_mode = ModeUser | ModeShared

record openclaw_config =
  token :: jstring
  gatewayUrl :: jstring
  cliPath :: jstring

record behavior_config =
  privateChat :: bool
  groupAtOnly :: bool
  adminQQ :: "int list"
  commandAdminOnly :: bool
  userWhitelist :: "int list"
  groupWhitelist :: "int list"
  groupBypassUserWhitelist :: bool
  userBlacklist :: "int list"
  debounceMs :: int
  resolveReply :: bool
  replyMaxDepth :: int
  groupSessionMode :: group_session_mode
  replyAtSender :: bool
  replyQuoteMessage :: bool

record media_config =
  cacheEnabled :: bool
  cachePath :: jstring
  cacheMaxSizeMB :: int
  cacheTTLMinutes :: int

record PluginConfig =
  openclaw :: openclaw_config
  behavior :: behavior_config
  media :: media_config

section \<open>Session management (index.ts, getSessionBase and getSessionKey)\<close>

definition getSessionBase :: "PluginConfig \<Rightarrow> jstring \<Rightarrow> js_id \<Rightarrow> js_id \<Rightarrow> jstring" where
  "getSessionBase cfg messageType userId groupId =
     (if messageType = js ''private'' then js ''qq-'' @ to_str userId
      else if groupSessionMode (behavior cfg) = ModeShared then js ''qq-g'' @ to_str groupId
      else js ''qq-g'' @ to_str groupId @ js ''-'' @ to_str userId)"

text \<open>
  \<open>sessionEpochs\<close> is a \<open>Map<string, number>\<close>; \<open>sessionEpochs.get(base) || 0\<close> reads
  a missing entry as 0.
\<close>

type_synonym session_epochs = "jstring \<rightharpoonup> int"

definition epoch_of :: "session_epochs \<Rightarrow> jstring \<Rightarrow> int" where
  "epoch_of sessionEpochs sessionBase =
     (case sessionEpochs sessionBase of None \<Rightarrow> 0 | Some e \<Rightarrow> e)"

definition getSessionKey :: "session_epochs \<Rightarrow> jstring \<Rightarrow> jstring" where
  "getSessionKey sessionEpochs sessionBase =
     (let epoch = epoch_of sessionEpochs sessionBase
      in if epoch > 0 then sessionBase @ js ''-'' @ string_of_int epoch else sessionBase)"

section \<open>Text of a chat event (index.ts, extractTextFromPayload)\<close>

text \<open>
  \<open>\s\<close> of a regular expression and \<open>String.prototype.trim\<close> share one set of code
  units: the white space and the line terminators of ECMAScript.
\<close>

definition is_line_terminator :: "nat \<Rightarrow> bool" where
  "is_line_terminator c = (c = 0x0A \<or> c = 0x0D \<or> c = 0x2028 \<or> c = 0x2029)"

definition is_space :: "nat \<Rightarrow> bool" where
  "is_space c =
     (c = 0x09 \<or> c = 0x0B \<or> c = 0x0C \<or> c = 0x20 \<or> c = 0xA0 \<or> c = 0x1680
      \<or> (0x2000 \<le> c \<and> c \<le> 0x200A) \<or> c = 0x202F \<or> c = 0x205F \<or> c = 0x3000
      \<or> c = 0xFEFF \<or> is_line_terminator c)"

definition trim :: "jstring \<Rightarrow> jstring" where
  "trim s = rev (dropWhile is_space (rev (dropWhile is_space s)))"

text \<open>
  The \<open>message\<close> of a chat event is a string or a \<open>MessageContent\<close> object whose
  \<open>content\<close> is one block or an array of blocks; a block is a string, an object with an
  optional \<open>text\<close>, or null.
\<close>

datatype content_block = BlockString jstring | BlockObject "jstring option" | BlockNull

datatype message_content = ContentArray "content_block list" | ContentSingle content_block

datatype chat_message =
  MsgString jstring
| MsgObject (msg_content: "message_content option") (msg_text: "jstring option")

text \<open>\<open>!content\<close>: an absent content, a null block and the empty string are falsy.\<close>

fun content_falsy :: "message_content option \<Rightarrow> bool" where
  "content_falsy None = True"
| "content_falsy (Some (ContentSingle BlockNull)) = True"
| "content_falsy (Some (ContentSingle (BlockString s))) = (s = [])"
| "content_falsy (Some _) = False"

fun block_text :: "content_block \<Rightarrow> jstring" where
  "block_text (BlockString s) = s"
| "block_text (BlockObject (Some t)) = (if t \<noteq> [] then t else [])"
| "block_text (BlockObject None) = []"
| "block_text BlockNull = []"

fun extractTextFromPayload :: "chat_message option \<Rightarrow> jstring" where
  "extractTextFromPayload (Some (MsgString s)) = s"
| "extractTextFromPayload None = []"
| "extractTextFromPayload (Some (MsgObject content text)) =
     (if content_falsy content then (case text of None \<Rightarrow> [] | Some t \<Rightarrow> t)
      else
        let blocks = (case content of
                        Some (ContentArray bs) \<Rightarrow> bs
                      | Some (ContentSingle b) \<Rightarrow> [b]
                      | None \<Rightarrow> [])
        in foldl (\<lambda>text b. text @ block_text b) [] blocks)"

definition extractContentText :: "chat_message option \<Rightarrow> jstring" where
  "extractContentText message = extractTextFromPayload message"

section \<open>Waiting for the reply of a run (index.ts, plugin_onmessage, the reply promise)\<close>

record ChatEventPayload =
  sessionKey :: "jstring option"
  runId :: "jstring option"
  state :: jstring
  message :: "chat_message option"
  errorMessage :: "jstring option"

text \<open>
  The handler stored in \<open>gw.eventHandlers\<close> is a closure over the promise it resolves,
  the timer it clears and the session key it compares with: a waiter number and the key.
\<close>

datatype handler = ChatHandler nat jstring

text \<open>
  The state the reply promises share: the handler map of the gateway client
  (\<open>Map<string, handler>\<close>, one slot for each event type), the timers that are set and not
  yet fired or cleared (waiter and deadline in milliseconds, in the order they were set),
  and the promises that are settled (\<open>None\<close> for a pending one, \<open>Some None\<close> for one
  resolved with null).
\<close>

record engine =
  eventHandlers :: "jstring \<rightharpoonup> handler"
  timers :: "(nat \<times> int) list"
  promises :: "nat \<rightharpoonup> jstring option"
  nextWaiter :: nat

definition init_engine :: engine where
  "init_engine = \<lparr>eventHandlers = Map.empty, timers = [], promises = Map.empty, nextWaiter = 0\<rparr>"

text \<open>Resolving a settled promise changes nothing.\<close>

definition resolve :: "nat \<Rightarrow> jstring option \<Rightarrow> engine \<Rightarrow> engine" where
  "resolve w v s =
     (case promises s w of
        None \<Rightarrow> s\<lparr>promises := (promises s)(w \<mapsto> v)\<rparr>
      | Some _ \<Rightarrow> s)"

text \<open>\<open>cleanup\<close>: \<open>clearTimeout(timeout); gw.eventHandlers.delete('chat')\<close>.\<close>

definition cleanup :: "nat \<Rightarrow> engine \<Rightarrow> engine" where
  "cleanup w s =
     s\<lparr>timers := filter (\<lambda>(w', d). w' \<noteq> w) (timers s),
       eventHandlers := (eventHandlers s)(js ''chat'' := None)\<rparr>"


text \<open>
  The executor of the promise, run at time \<open>now\<close> for a session key: it sets the timer and
  stores the handler under \<open>'chat'\<close>.
\<close>

definition register_waiter :: "int \<Rightarrow> jstring \<Rightarrow> engine \<Rightarrow> nat \<times> engine" where
  "register_waiter now key s =
     (let w = nextWaiter s
      in (w, s\<lparr>timers := timers s @ [(w, now + 180000)],
                eventHandlers := (eventHandlers s)(js ''chat'' \<mapsto> ChatHandler w key),
                nextWaiter := Suc w\<rparr>))"

definition endsWith :: "jstring \<Rightarrow> jstring \<Rightarrow> bool" where
  "endsWith s t = (length t \<le> length s \<and> drop (length s - length t) s = t)"

text \<open>
  The handler returns early unless
  \<open>payload.sessionKey === sessionKey || payload.sessionKey?.endsWith(':' + sessionKey)\<close>.
\<close>

definition key_matches :: "jstring \<Rightarrow> ChatEventPayload \<Rightarrow> bool" where
  "key_matches key p =
     (case sessionKey p of
        None \<Rightarrow> False
      | Some k \<Rightarrow> k = key \<or> endsWith k (js '':'' @ key))"

text \<open>\<open>text?.trim() || null\<close>.\<close>

definition text_or_null :: "jstring \<Rightarrow> jstring option" where
  "text_or_null t = (if trim t = [] then None else Some (trim t))"

definition abort_notice :: jstring where
  "abort_notice = [0x23F9, 0x20, 0x5DF2, 0x4E2D, 0x6B62]"

definition error_reply :: "jstring option \<Rightarrow> jstring" where
  "error_reply em =
     [0x274C, 0x20] @
     (case em of
        None \<Rightarrow> [0x5904, 0x7406, 0x51FA, 0x9519]
      | Some m \<Rightarrow> if m \<noteq> [] then m else [0x5904, 0x7406, 0x51FA, 0x9519])"

definition chat_handler :: "nat \<Rightarrow> jstring \<Rightarrow> ChatEventPayload option \<Rightarrow> engine \<Rightarrow> engine" where
  "chat_handler w key payload s =
     (case payload of
        None \<Rightarrow> s
      | Some p \<Rightarrow>
          if \<not> key_matches key p then s
          else
            let s1 = (if state p = js ''final''
                      then resolve w (text_or_null (extractContentText (message p))) (cleanup w s)
                      else s);
                s2 = (if state p = js ''aborted''
                      then resolve w (Some abort_notice) (cleanup w s1)
                      else s1)
            in if state p = js ''error''
               then resolve w (Some (error_reply (errorMessage p))) (cleanup w s2)
               else s2)"




datatype action = Register jstring | Event jstring "ChatEventPayload option" | Tick






text \<open>A chat event frame with a string message, for the examples.\<close>

definition chat_event :: "string \<Rightarrow> string \<Rightarrow> string \<Rightarrow> ChatEventPayload" where
  "chat_event st key text =
     \<lparr>sessionKey = Some (js key), runId = None, state = js st,
      message = Some (MsgString (js text)), errorMessage = None\<rparr>"

text \<open>
  Chat event frames for the examples: one whose message is an object with an array of
  content blocks, and an \<open>error\<close> frame with an error message.
\<close>

definition block_event :: "string \<Rightarrow> string \<Rightarrow> content_block list \<Rightarrow> ChatEventPayload" where
  "block_event st key bs =
     \<lparr>sessionKey = Some (js key), runId = None, state = js st,
      message = Some (MsgObject (Some (ContentArray bs)) None), errorMessage = None\<rparr>"

definition error_event :: "string \<Rightarrow> jstring option \<Rightarrow> ChatEventPayload" where
  "error_event key em =
     \<lparr>sessionKey = Some (js key), runId = None, state = js ''error'',
      message = None, errorMessage = em\<rparr>"




section \<open>Media cache (index.ts)\<close>

text \<open>
  The cache directory as the file system calls of the source see it: the names
  \<open>readdirSync\<close> lists, in its order; what \<open>statSync\<close> gives for a name (\<open>None\<close> when
  it throws); and whether \<open>unlinkSync\<close> can remove a name (it throws when it cannot, as
  for a subdirectory). A directory that does not exist is \<open>None\<close>. Sizes and times are
  integral numbers; the comparator of the sort uses only the sign of a difference of times.
\<close>

record file_stat =
  mtimeMs :: int
  fsize :: int

record cache_dir =
  entries :: "jstring list"
  stat_of :: "jstring \<Rightarrow> file_stat option"
  removable :: "jstring \<Rightarrow> bool"

datatype fs_error = ENOENT | EACCES | EPERM

definition statSync :: "cache_dir \<Rightarrow> jstring \<Rightarrow> fs_error + file_stat" where
  "statSync d f =
     (if f \<notin> set (entries d) then Inl ENOENT
      else case stat_of d f of None \<Rightarrow> Inl EACCES | Some st \<Rightarrow> Inr st)"

definition unlinkSync :: "cache_dir \<Rightarrow> jstring \<Rightarrow> fs_error + cache_dir" where
  "unlinkSync d f =
     (if f \<notin> set (entries d) then Inl ENOENT
      else if \<not> removable d f then Inl EPERM
      else Inr (d\<lparr>entries := removeAll f (entries d)\<rparr>))"

text \<open>\<open>try { total += fs.statSync(...).size; } catch { /* skip */ }\<close> over the listing.\<close>

definition getCacheDirSize :: "cache_dir option \<Rightarrow> int" where
  "getCacheDirSize fs =
     (case fs of
        None \<Rightarrow> 0
      | Some d \<Rightarrow>
          foldl (\<lambda>total f. case statSync d f of Inl _ \<Rightarrow> total | Inr st \<Rightarrow> total + fsize st)
            0 (entries d))"

text \<open>
  The listing of \<open>evictOldestFiles\<close>: name and stat of every entry that can be stat'ed
  (\<open>.map(...)\<close> with null for a failure, then \<open>.filter(Boolean)\<close>).
\<close>

definition stat_files :: "cache_dir \<Rightarrow> (jstring \<times> file_stat) list" where
  "stat_files d =
     List.map_filter
       (\<lambda>f. case statSync d f of Inl _ \<Rightarrow> None | Inr st \<Rightarrow> Some (f, st))
       (entries d)"

text \<open>
  The eviction loop: it stops as soon as the running size fits; a deletion that throws is
  skipped, the running size unchanged.
\<close>

fun evict_loop :: "int \<Rightarrow> int \<Rightarrow> (jstring \<times> file_stat) list \<Rightarrow> cache_dir \<times> int \<Rightarrow> cache_dir \<times> int" where
  "evict_loop maxBytes needBytes [] (d, currentSize) = (d, currentSize)"
| "evict_loop maxBytes needBytes (f # files) (d, currentSize) =
     (if currentSize + needBytes \<le> maxBytes then (d, currentSize)
      else case unlinkSync d (fst f) of
             Inl _ \<Rightarrow> evict_loop maxBytes needBytes files (d, currentSize)
           | Inr d' \<Rightarrow> evict_loop maxBytes needBytes files (d', currentSize - fsize (snd f)))"

text \<open>
  \<open>files.sort((a, b) => a.mtimeMs - b.mtimeMs)\<close>: \<open>Array.prototype.sort\<close> is stable, as
  is \<open>sort_key\<close>.
\<close>

definition evictOldestFiles :: "PluginConfig \<Rightarrow> int \<Rightarrow> cache_dir option \<Rightarrow> cache_dir option" where
  "evictOldestFiles cfg needBytes fs =
     (case fs of
        None \<Rightarrow> None
      | Some d \<Rightarrow>
          let maxBytes = cacheMaxSizeMB (media cfg) * 1024 * 1024;
              currentSize = getCacheDirSize fs
          in if currentSize + needBytes \<le> maxBytes then Some d
             else
               let files = sort_key (\<lambda>f. mtimeMs (snd f)) (stat_files d)
               in Some (fst (evict_loop maxBytes needBytes files (d, currentSize))))"

fun sweep_loop :: "int \<Rightarrow> int \<Rightarrow> jstring list \<Rightarrow> cache_dir \<Rightarrow> cache_dir" where
  "sweep_loop now ttlMs [] d = d"
| "sweep_loop now ttlMs (f # fs) d =
     sweep_loop now ttlMs fs
       (case statSync d f of
          Inl _ \<Rightarrow> d
        | Inr st \<Rightarrow>
            if now - mtimeMs st > ttlMs
            then (case unlinkSync d f of Inl _ \<Rightarrow> d | Inr d' \<Rightarrow> d')
            else d)"

definition cleanExpiredCache :: "PluginConfig \<Rightarrow> int \<Rightarrow> cache_dir option \<Rightarrow> cache_dir option" where
  "cleanExpiredCache cfg now fs =
     (case fs of
        None \<Rightarrow> None
      | Some d \<Rightarrow>
          let ttlMs = cacheTTLMinutes (media cfg) * 60 * 1000
          in Some (sweep_loop now ttlMs (entries d) d))"

text \<open>
  \<open>setInterval(callback, delay)\<close> of Node.js: a delay below 1 or above 2147483647
  (\<open>TIMEOUT_MAX\<close>, \<open>2^31 - 1\<close>) is set to 1. The result is the period in milliseconds of
  the timer that runs.
\<close>

definition setInterval :: "int \<Rightarrow> int" where
  "setInterval delay = (if 1 \<le> delay \<and> delay \<le> 2147483647 then delay else 1)"

text \<open>
  \<open>startCacheCleanup\<close>: the timer that was running is stopped, and with the cache enabled
  \<open>cleanExpiredCache\<close> is scheduled with \<open>setInterval\<close>; the result is the period of the
  timer that runs afterwards, if any.
\<close>

definition startCacheCleanup :: "PluginConfig \<Rightarrow> int option \<Rightarrow> int option" where
  "startCacheCleanup cfg cacheCleanupTimer =
     (if \<not> cacheEnabled (media cfg) then None
      else
        let intervalMs = cacheTTLMinutes (media cfg) * 60 * 1000
        in Some (setInterval intervalMs))"

text \<open>
  \<open>downloadMedia\<close>. What the world answers is given: the outcome of the fetch (a throw, a
  response that is not ok, or a body of some length), the name \<open>randomUUID()\<close> returns,
  the time, and whether \<open>mkdirSync\<close> and \<open>writeFileSync\<close> throw. Every throw is caught
  and gives null.
\<close>

datatype fetch_result = FetchThrows | FetchNotOk | FetchOk nat

record download_env =
  fetched :: fetch_result
  uuid :: jstring
  clock_ms :: int
  mkdir_throws :: bool
  write_throws :: bool

definition ensureCacheDir :: "download_env \<Rightarrow> cache_dir option \<Rightarrow> fs_error + cache_dir" where
  "ensureCacheDir env fs =
     (case fs of
        Some d \<Rightarrow> Inr d
      | None \<Rightarrow>
          if mkdir_throws env then Inl EACCES
          else Inr \<lparr>entries = [], stat_of = (\<lambda>f. None), removable = (\<lambda>f. True)\<rparr>)"

definition writeFileSync :: "download_env \<Rightarrow> cache_dir \<Rightarrow> jstring \<Rightarrow> nat \<Rightarrow> fs_error + cache_dir" where
  "writeFileSync env d f n =
     (if write_throws env then Inl EACCES
      else Inr (d\<lparr>entries := (if f \<in> set (entries d) then entries d else entries d @ [f]),
                  stat_of := (stat_of d)(f \<mapsto> \<lparr>mtimeMs = clock_ms env, fsize = int n\<rparr>),
                  removable := (removable d)(f := True)\<rparr>))"

text \<open>\<open>path.join(dir, filename)\<close> for a cache path that does not end in a separator.\<close>

definition path_join :: "jstring \<Rightarrow> jstring \<Rightarrow> jstring" where
  "path_join dir filename = dir @ js ''/'' @ filename"

definition downloadMedia ::
  "download_env \<Rightarrow> PluginConfig \<Rightarrow> jstring \<Rightarrow> cache_dir option \<Rightarrow> jstring option \<times> cache_dir option" where
  "downloadMedia env cfg ext fs =
     (case ensureCacheDir env fs of
        Inl _ \<Rightarrow> (None, fs)
      | Inr d \<Rightarrow>
          let filename = uuid env @ ext;
              filepath = path_join (cachePath (media cfg)) filename
          in case fetched env of
               FetchThrows \<Rightarrow> (None, Some d)
             | FetchNotOk \<Rightarrow> (None, Some d)
             | FetchOk n \<Rightarrow>
                 (case evictOldestFiles cfg (int n) (Some d) of
                    None \<Rightarrow> (None, Some d)
                  | Some d' \<Rightarrow>
                      (case writeFileSync env d' filename n of
                         Inl _ \<Rightarrow> (None, Some d')
                       | Inr d'' \<Rightarrow> (Some filepath, Some d''))))"

text \<open>
  What the statements about the cache speak of: the modification time and the size of an
  entry as \<open>statSync\<close> gives them, the order in which \<open>evictOldestFiles\<close> visits the
  entries, an entry the sweep deletes (it can be stat'ed, its age exceeds the TTL and it
  can be removed), and a directory in which every entry can be stat'ed and removed and
  no name is listed twice.
\<close>

definition mtime_of :: "cache_dir \<Rightarrow> jstring \<Rightarrow> int" where
  "mtime_of d f = (case stat_of d f of None \<Rightarrow> 0 | Some st \<Rightarrow> mtimeMs st)"

definition size_of :: "cache_dir \<Rightarrow> jstring \<Rightarrow> int" where
  "size_of d f = (case stat_of d f of None \<Rightarrow> 0 | Some st \<Rightarrow> fsize st)"

definition eviction_order :: "cache_dir \<Rightarrow> jstring list" where
  "eviction_order d = map fst (sort_key (\<lambda>f. mtimeMs (snd f)) (stat_files d))"

definition healthy :: "cache_dir \<Rightarrow> bool" where
  "healthy d =
     (distinct (entries d) \<and> (\<forall>f \<in> set (entries d). stat_of d f \<noteq> None \<and> removable d f))"

definition sweeps :: "int \<Rightarrow> int \<Rightarrow> cache_dir \<Rightarrow> jstring \<Rightarrow> bool" where
  "sweeps now ttlMs d f =
     (case stat_of d f of
        None \<Rightarrow> False
      | Some st \<Rightarrow> now - mtimeMs st > ttlMs \<and> removable d f)"

text \<open>
  An example: a cap of 1 MB and a directory of two files of 600000 bytes, the older of
  which may be one that cannot be removed.
\<close>

definition example_config :: PluginConfig where
  "example_config =
     \<lparr>openclaw = \<lparr>token = js ''t'', gatewayUrl = js ''ws://127.0.0.1:18789'', cliPath = js ''openclaw''\<rparr>,
      behavior = \<lparr>privateChat = True, groupAtOnly = True, adminQQ = [], commandAdminOnly = False,
        userWhitelist = [], groupWhitelist = [], groupBypassUserWhitelist = False,
        userBlacklist = [], debounceMs = 2000, resolveReply = True, replyMaxDepth = 1,
        groupSessionMode = ModeUser, replyAtSender = True, replyQuoteMessage = False\<rparr>,
      media = \<lparr>cacheEnabled = True, cachePath = js ''/tmp/cache'', cacheMaxSizeMB = 1,
        cacheTTLMinutes = 60\<rparr>\<rparr>"

definition example_dir :: "bool \<Rightarrow> cache_dir" where
  "example_dir old_removable =
     \<lparr>entries = [js ''new'', js ''old''],
      stat_of = [js ''old'' \<mapsto> \<lparr>mtimeMs = 1000, fsize = 600000\<rparr>,
                 js ''new'' \<mapsto> \<lparr>mtimeMs = 2000, fsize = 600000\<rparr>],
      removable = (\<lambda>f. f \<noteq> js ''old'' \<or> old_removable)\<rparr>"

text \<open>The same configuration with a time to live of 30 days.\<close>

definition month_config :: PluginConfig where
  "month_config = example_config\<lparr>media := (media example_config)\<lparr>cacheTTLMinutes := 43200\<rparr>\<rparr>"

section \<open>Sending a reply (index.ts, sendReply)\<close>

text \<open>
  Calls of actions of the message bus are effects on a world: a clock in milliseconds, the
  number of calls made, and the calls that returned, each with the time at which it
  returned; the world also records the \<open>chat.send\<close> requests made to the gateway
  (session key and message) and the runs of the command line client (command and timeout
  in milliseconds). What the bus answers is given: whether the \<open>k\<close>-th call throws (and with which
  message) and how long it takes. \<open>sleep(ms)\<close> resumes after \<open>ms\<close> milliseconds.
\<close>

datatype segment = SegReply jstring | SegAt jstring | SegText jstring | SegImage jstring

datatype api_call =
  SendMsg jstring jstring "segment list"
| UploadFile jstring jstring jstring jstring
| SetInputStatus jstring bool

datatype 'a outcome = Returned 'a | Threw jstring

record world =
  clock :: int
  ncalls :: nat
  sent :: "(int \<times> api_call) list"
  requests :: "(jstring \<times> jstring) list"
  cli_runs :: "(jstring \<times> int) list"

record call_env =
  call_throws :: "nat \<Rightarrow> jstring option"
  call_ms :: "nat \<Rightarrow> int"

definition action_call :: "call_env \<Rightarrow> api_call \<Rightarrow> world \<Rightarrow> unit outcome \<times> world" where
  "action_call env c w =
     (let k = ncalls w;
          t = clock w + call_ms env k;
          w' = w\<lparr>clock := t, ncalls := Suc k\<rparr>
      in case call_throws env k of
           Some e \<Rightarrow> (Threw e, w')
         | None \<Rightarrow> (Returned (), w'\<lparr>sent := sent w' @ [(t, c)]\<rparr>))"

definition sleep :: "int \<Rightarrow> world \<Rightarrow> world" where
  "sleep ms w = w\<lparr>clock := clock w + ms\<rparr>"

text \<open>Truthiness of an identifier: an absent one, the number 0 and the empty string are falsy.\<close>

fun truthy :: "js_id \<Rightarrow> bool" where
  "truthy (IdNum n) = (n \<noteq> 0)"
| "truthy (IdStr s) = (s \<noteq> [])"
| "truthy IdUndef = False"
| "truthy IdNull = False"

definition prefix_segments :: "PluginConfig \<Rightarrow> jstring \<Rightarrow> js_id \<Rightarrow> js_id \<Rightarrow> segment list" where
  "prefix_segments cfg messageType userId eventMessageId =
     (if messageType = js ''group''
      then (if replyQuoteMessage (behavior cfg) \<and> truthy eventMessageId
            then [SegReply (to_str eventMessageId)] else [])
           @ (if replyAtSender (behavior cfg) then [SegAt (to_str userId)] else [])
      else [])"

definition startsWith :: "jstring \<Rightarrow> jstring \<Rightarrow> bool" where
  "startsWith s p = (take (length p) s = p)"

text \<open>
  The regular expression \<open>/^MEDIA:\s*(.+)$/gm\<close>, tried at the start of a line on what
  follows \<open>MEDIA:\<close>. The white space is taken greedily. When a character that is no white
  space follows, the group is the rest of the line. When only white space is left, the
  group is the last white space character that is no line terminator, if there is one.
  The result is the group and the length of the match after \<open>MEDIA:\<close>.
\<close>

definition media_match :: "jstring \<Rightarrow> (jstring \<times> nat) option" where
  "media_match rest =
     (let ws = takeWhile is_space rest;
          after = dropWhile is_space rest
      in if after \<noteq> []
         then Some (takeWhile (\<lambda>c. \<not> is_line_terminator c) after,
                    length ws + length (takeWhile (\<lambda>c. \<not> is_line_terminator c) after))
         else
           let kept = rev (dropWhile is_line_terminator (rev ws))
           in if kept = [] then None else Some ([last kept], length kept))"

text \<open>
  One pass over the text for the matches of that expression: the groups, and the text with
  the matches removed. \<open>bol\<close> says that the position is the start of a line, \<open>skip\<close> counts
  the characters of a match still to be dropped.
\<close>

fun scan_media :: "bool \<Rightarrow> nat \<Rightarrow> jstring \<Rightarrow> jstring list \<times> jstring" where
  "scan_media bol skip [] = ([], [])"
| "scan_media bol (Suc k) (c # cs) = scan_media False k cs"
| "scan_media bol 0 (c # cs) =
     (case (if bol \<and> startsWith (c # cs) (js ''MEDIA:'')
            then media_match (drop 6 (c # cs)) else None) of
        Some (captured, n) \<Rightarrow>
          (case scan_media False (5 + n) cs of (found, out) \<Rightarrow> (captured # found, out))
      | None \<Rightarrow>
          (case scan_media (is_line_terminator c) 0 cs of (found, out) \<Rightarrow> (found, c # out)))"

text \<open>
  \<open>new RegExp(`^@\\S+\\s*\\(${userId}\\)\\s*`)\<close> for an identifier whose rendering has
  no character special to regular expressions (digits): \<open>@\<close>, a run of \<open>i\<close> characters that
  are no white space, the longest \<open>i\<close> first, white space, the identifier in parentheses,
  white space. The result is what follows the match.
\<close>

fun at_match_from :: "nat \<Rightarrow> jstring \<Rightarrow> jstring \<Rightarrow> jstring option" where
  "at_match_from 0 body ident = None"
| "at_match_from (Suc i) body ident =
     (let rest = dropWhile is_space (drop (Suc i) body);
          lit = js ''('' @ ident @ js '')''
      in if startsWith rest lit then Some (dropWhile is_space (drop (length lit) rest))
         else at_match_from i body ident)"

definition at_match :: "jstring \<Rightarrow> jstring \<Rightarrow> jstring option" where
  "at_match s ident =
     (case s of
        [] \<Rightarrow> None
      | c # body \<Rightarrow>
          if c = 0x40
          then at_match_from (length (takeWhile (\<lambda>c. \<not> is_space c) body)) body ident
          else None)"

text \<open>\<open>/^\[CQ:reply[^\]]*\]\s*/\<close>; the result is what follows the match.\<close>

definition cq_reply_match :: "jstring \<Rightarrow> jstring option" where
  "cq_reply_match s =
     (if startsWith s (js ''[CQ:reply'')
      then (case dropWhile (\<lambda>c. c \<noteq> 0x5D) (drop 9 s) of
              [] \<Rightarrow> None
            | c # rest \<Rightarrow> Some (dropWhile is_space rest))
      else None)"

text \<open>The paths of the \<open>MEDIA:\<close> lines, and the text that is sent.\<close>

definition media_files :: "jstring \<Rightarrow> jstring list" where
  "media_files text = filter (\<lambda>p. p \<noteq> []) (map trim (fst (scan_media True 0 text)))"

definition clean_text :: "PluginConfig \<Rightarrow> jstring \<Rightarrow> js_id \<Rightarrow> segment list \<Rightarrow> jstring \<Rightarrow> jstring" where
  "clean_text cfg messageType userId prefixSegs text =
     (let cleanText = trim (snd (scan_media True 0 text))
      in if messageType = js ''group'' \<and> prefixSegs \<noteq> []
         then
           let c1 = (if replyAtSender (behavior cfg)
                     then (case at_match cleanText (to_str userId) of
                             Some rest \<Rightarrow> trim rest | None \<Rightarrow> cleanText)
                     else cleanText)
           in if replyQuoteMessage (behavior cfg)
              then (case cq_reply_match c1 of Some rest \<Rightarrow> trim rest | None \<Rightarrow> c1)
              else c1
         else cleanText)"

text \<open>
  The loop over the chunks of a long text: \<open>i\<close> is the index of the loop, \<open>total\<close> the
  number of chunks. A call that throws ends \<open>sendReply\<close>.
\<close>

function chunk_loop ::
  "call_env \<Rightarrow> jstring \<Rightarrow> jstring \<Rightarrow> segment list \<Rightarrow> jstring \<Rightarrow> nat \<Rightarrow> nat \<Rightarrow> world
     \<Rightarrow> unit outcome \<times> world" where
  "chunk_loop env action idVal prefixSegs cleanText total_n i w =
     (if i < length cleanText
      then
        let idx = i div 3000 + 1;
            prefix = (if total_n > 1
                      then js ''['' @ digits idx @ js ''/'' @ digits total_n @ js '']'' @ [0x0A]
                      else []);
            segs = (if i = 0 then prefixSegs else [])
                   @ [SegText (prefix @ take 3000 (drop i cleanText))]
        in case action_call env (SendMsg action idVal segs) w of
             (Threw e, w') \<Rightarrow> (Threw e, w')
           | (Returned u, w') \<Rightarrow>
               chunk_loop env action idVal prefixSegs cleanText total_n (i + 3000)
                 (if i + 3000 < length cleanText then sleep 1000 w' else w')
      else (Returned (), w))"
  by pat_completeness auto
termination
  by (relation "measure (\<lambda>(env, action, idVal, prefixSegs, cleanText, total_n, i, w).
        length cleanText - i)") auto

declare chunk_loop.simps [simp del]

definition send_text ::
  "call_env \<Rightarrow> jstring \<Rightarrow> jstring \<Rightarrow> segment list \<Rightarrow> jstring \<Rightarrow> world \<Rightarrow> unit outcome \<times> world" where
  "send_text env action idVal prefixSegs cleanText w =
     (if cleanText \<noteq> []
      then
        if length cleanText \<le> 3000
        then action_call env (SendMsg action idVal (prefixSegs @ [SegText cleanText])) w
        else chunk_loop env action idVal prefixSegs cleanText
               ((length cleanText + 2999) div 3000) 0 w
      else (Returned (), w))"

text \<open>
  \<open>path.basename\<close> and \<open>path.extname\<close> (POSIX), and \<open>toLowerCase\<close> on the letters A to Z.
\<close>

definition basename :: "jstring \<Rightarrow> jstring" where
  "basename p =
     rev (takeWhile (\<lambda>c. c \<noteq> 0x2F) (dropWhile (\<lambda>c. c = 0x2F) (rev p)))"

definition extname :: "jstring \<Rightarrow> jstring" where
  "extname name =
     (let ext = rev (takeWhile (\<lambda>c. c \<noteq> 0x2E) (rev name))
      in if 0x2E \<notin> set name \<or> length ext + 1 = length name \<or> name = js ''..''
         then [] else 0x2E # ext)"

definition toLowerCase :: "jstring \<Rightarrow> jstring" where
  "toLowerCase s = map (\<lambda>c. if 0x41 \<le> c \<and> c \<le> 0x5A then c + 0x20 else c) s"

definition imageExts :: "jstring list" where
  "imageExts = [js ''.jpg'', js ''.jpeg'', js ''.png'', js ''.gif'', js ''.bmp'', js ''.webp'']"

text \<open>The loop over the media files: a call that throws is caught and logged.\<close>

fun send_media ::
  "call_env \<Rightarrow> jstring \<Rightarrow> jstring \<Rightarrow> jstring \<Rightarrow> jstring list \<Rightarrow> world \<Rightarrow> world" where
  "send_media env messageType action idVal [] w = w"
| "send_media env messageType action idVal (filePath # rest) w =
     (let fileName = basename filePath;
          ext = toLowerCase (extname fileName);
          c = (if ext \<in> set imageExts
               then SendMsg action idVal [SegImage (js ''file://'' @ filePath)]
               else if messageType = js ''group''
               then UploadFile (js ''upload_group_file'') idVal filePath fileName
               else UploadFile (js ''upload_private_file'') idVal filePath fileName)
      in send_media env messageType action idVal rest (snd (action_call env c w)))"

definition sendReply ::
  "call_env \<Rightarrow> PluginConfig \<Rightarrow> jstring \<Rightarrow> js_id \<Rightarrow> js_id \<Rightarrow> jstring \<Rightarrow> js_id \<Rightarrow> world
     \<Rightarrow> unit outcome \<times> world" where
  "sendReply env cfg messageType groupId userId text eventMessageId w =
     (let action = (if messageType = js ''group'' then js ''send_group_msg''
                    else js ''send_private_msg'');
          idVal = to_str (if messageType = js ''group'' then groupId else userId);
          prefixSegs = prefix_segments cfg messageType userId eventMessageId;
          mediaFiles = media_files text;
          cleanText = clean_text cfg messageType userId prefixSegs text
      in case send_text env action idVal prefixSegs cleanText w of
           (Threw e, w') \<Rightarrow> (Threw e, w')
         | (Returned u, w') \<Rightarrow>
             (Returned (), send_media env messageType action idVal mediaFiles w'))"

text \<open>
  The message a long reply is expected to give for its chunk \<open>k\<close> (counted from 0) of
  \<open>total_n\<close>: the prefix segments on the first chunk only, and the slice of 3000
  characters after \<open>[k+1/total_n]\<close> and a line feed.
\<close>

definition chunk_message :: "jstring \<Rightarrow> jstring \<Rightarrow> segment list \<Rightarrow> jstring \<Rightarrow> nat \<Rightarrow> nat \<Rightarrow> api_call" where
  "chunk_message action idVal prefixSegs cleanText total_n k =
     SendMsg action idVal
       ((if k = 0 then prefixSegs else [])
        @ [SegText (js ''['' @ digits (k + 1) @ js ''/'' @ digits total_n @ js '']'' @ [0x0A]
                    @ take 3000 (drop (3000 * k) cleanText))])"

text \<open>A bus on which no call throws and every call takes \<open>ms\<close> milliseconds.\<close>

definition steady_bus :: "int \<Rightarrow> call_env" where
  "steady_bus ms = \<lparr>call_throws = (\<lambda>k. None), call_ms = (\<lambda>k. ms)\<rparr>"

definition init_world :: world where
  "init_world = \<lparr>clock = 0, ncalls = 0, sent = [], requests = [], cli_runs = []\<rparr>"

section \<open>Handling an inbound message (index.ts, plugin_onmessage)\<close>

text \<open>
  An inbound event of the message bus, with the fields the handler reads. A segment has a
  type and optional data fields.
\<close>

record msg_segment =
  seg_type :: jstring
  seg_text :: "jstring option"
  seg_url :: "jstring option"
  seg_qq :: js_id
  seg_name :: "jstring option"
  seg_id :: js_id
  seg_summary :: "jstring option"

record bus_event =
  post_type :: jstring
  user_id :: js_id
  nickname :: "jstring option"
  message_type :: jstring
  group_id :: js_id
  message_id :: js_id
  self_id :: js_id
  segments :: "msg_segment list option"

datatype media_type = Image | File | Voice | Video

record ExtractedMedia =
  media_kind :: media_type
  media_url :: jstring
  media_name :: "jstring option"

fun media_type_name :: "media_type \<Rightarrow> jstring" where
  "media_type_name Image = js ''image''"
| "media_type_name File = js ''file''"
| "media_type_name Voice = js ''voice''"
| "media_type_name Video = js ''video''"

text \<open>A string that is present and not empty.\<close>

fun nonempty :: "jstring option \<Rightarrow> bool" where
  "nonempty None = False"
| "nonempty (Some s) = (s \<noteq> [])"

text \<open>\<open>Array.prototype.join\<close>.\<close>

fun join :: "jstring \<Rightarrow> jstring list \<Rightarrow> jstring" where
  "join sep [] = []"
| "join sep [x] = x"
| "join sep (x # y # ys) = x @ sep @ join sep (y # ys)"

text \<open>
  \<open>extractMessage\<close>: one step of the loop over the segments, on the text parts, the media
  and the identifier of the quoted message.
\<close>

definition extract_segment ::
  "js_id \<Rightarrow> msg_segment \<Rightarrow> jstring list \<times> ExtractedMedia list \<times> jstring option
     \<Rightarrow> jstring list \<times> ExtractedMedia list \<times> jstring option" where
  "extract_segment botUserId seg acc =
     (case acc of (textParts, found, replyMessageId) \<Rightarrow>
        if seg_type seg = js ''text''
        then (case seg_text seg of
                None \<Rightarrow> acc
              | Some t \<Rightarrow> if trim t \<noteq> [] then (textParts @ [trim t], found, replyMessageId)
                          else acc)
        else if seg_type seg = js ''image''
        then (if nonempty (seg_url seg)
              then (textParts,
                    found @ [\<lparr>media_kind = Image, media_url = the (seg_url seg), media_name = None\<rparr>],
                    replyMessageId)
              else acc)
        else if seg_type seg = js ''at''
        then (if to_str (seg_qq seg) \<noteq> to_str botUserId
              then (textParts
                      @ [js ''@'' @ (if nonempty (seg_name seg) then the (seg_name seg)
                                     else to_str (seg_qq seg))],
                    found, replyMessageId)
              else acc)
        else if seg_type seg = js ''file''
        then (if nonempty (seg_url seg)
              then (textParts,
                    found @ [\<lparr>media_kind = File, media_url = the (seg_url seg),
                              media_name = seg_name seg\<rparr>],
                    replyMessageId)
              else acc)
        else if seg_type seg = js ''record''
        then (if nonempty (seg_url seg)
              then (textParts,
                    found @ [\<lparr>media_kind = Voice, media_url = the (seg_url seg), media_name = None\<rparr>],
                    replyMessageId)
              else acc)
        else if seg_type seg = js ''video''
        then (if nonempty (seg_url seg)
              then (textParts,
                    found @ [\<lparr>media_kind = Video, media_url = the (seg_url seg), media_name = None\<rparr>],
                    replyMessageId)
              else acc)
        else if seg_type seg = js ''reply''
        then (if truthy (seg_id seg) then (textParts, found, Some (to_str (seg_id seg))) else acc)
        else if seg_type seg = js ''face''
        then (textParts
                @ [[0x5B, 0x8868, 0x60C5, 0x3A]
                   @ (if truthy (seg_id seg) then to_str (seg_id seg) else js ''?'') @ js '']''],
              found, replyMessageId)
        else if seg_type seg = js ''mface''
        then (textParts
                @ [if nonempty (seg_summary seg) then the (seg_summary seg)
                   else [0x5B, 0x5546, 0x57CE, 0x8868, 0x60C5, 0x5D]],
              found, replyMessageId)
        else acc)"

definition extractMessage ::
  "js_id \<Rightarrow> msg_segment list \<Rightarrow> jstring \<times> ExtractedMedia list \<times> jstring option" where
  "extractMessage botUserId segs =
     (case foldl (\<lambda>acc seg. extract_segment botUserId seg acc) ([], [], None) segs of
        (textParts, found, replyMessageId) \<Rightarrow> (join (js '' '') textParts, found, replyMessageId))"

text \<open>
  What the world answers while one message is handled: \<open>Number(...)\<close> of a string
  (\<open>None\<close> for NaN), what \<open>resolveReply\<close> returns for the quoted message (its own
  downloads into the cache are left out), the name of the group (empty when
  \<open>get_group_info\<close> throws or gives none), the answers to the downloads of the message,
  numbered in the order they are made, the outcomes of \<open>getGateway()\<close>, of the
  \<open>chat.send\<close> request, of the reply promise and of the command line client, and the
  answers of the message bus.
\<close>

record message_env =
  parse_number :: "jstring \<Rightarrow> int option"
  resolved_reply :: "jstring option"
  group_name :: jstring
  downloads :: "nat \<Rightarrow> download_env"
  gateway_connect :: "unit outcome"
  gateway_request :: "unit outcome"
  reply :: "jstring option"
  cli_result :: "jstring outcome"
  bus :: call_env

text \<open>The state of the module: its \<open>let\<close> variables and the cache directory.\<close>

record plugin_state =
  logger_set :: bool
  botUserId :: js_id
  currentConfig :: PluginConfig
  gatewayClient_set :: bool
  sessionEpochs :: session_epochs
  cache :: "cache_dir option"

fun to_number :: "message_env \<Rightarrow> js_id \<Rightarrow> int option" where
  "to_number env (IdNum n) = Some n"
| "to_number env (IdStr s) = parse_number env s"
| "to_number env IdUndef = None"
| "to_number env IdNull = Some 0"

text \<open>\<open>ids.some((id) => Number(id) === Number(x))\<close>.\<close>

definition listed :: "message_env \<Rightarrow> int list \<Rightarrow> js_id \<Rightarrow> bool" where
  "listed env ids x = (\<exists>i \<in> set ids. to_number env x = Some i)"

text \<open>
  The checks before the message is read (black list, white lists, private and group
  gates): whether the handler goes on.
\<close>

definition should_handle :: "message_env \<Rightarrow> PluginConfig \<Rightarrow> js_id \<Rightarrow> bus_event \<Rightarrow> bool" where
  "should_handle env cfg botId ev =
     (let b = behavior cfg;
          userId = user_id ev; messageType = message_type ev; groupId = group_id ev
      in if userBlacklist b \<noteq> [] \<and> listed env (userBlacklist b) userId then False
         else if userWhitelist b \<noteq> []
                 \<and> \<not> (messageType = js ''group'' \<and> truthy groupId
                        \<and> groupBypassUserWhitelist b \<and> groupWhitelist b \<noteq> []
                        \<and> listed env (groupWhitelist b) groupId)
                 \<and> \<not> listed env (userWhitelist b) userId
         then False
         else if messageType = js ''private'' then privateChat b
         else if messageType = js ''group''
         then
           if \<not> truthy groupId then False
           else if groupWhitelist b \<noteq> [] \<and> \<not> listed env (groupWhitelist b) groupId then False
           else if groupAtOnly b
           then (case segments ev of
                   None \<Rightarrow> False
                 | Some segs \<Rightarrow>
                     (\<exists>seg \<in> set segs. seg_type seg = js ''at''
                        \<and> to_str (seg_qq seg)
                            = to_str (if truthy botId then botId else self_id ev)))
           else True
         else False)"

text \<open>The local commands \<open>/help\<close> and \<open>/whoami\<close>.\<close>

definition cmdHelp :: jstring where
  "cmdHelp =
     [8505, 65039, 32, 72, 101, 108, 112, 10, 10, 83, 101, 115, 115, 105, 111, 110, 10, 32, 32,
      47, 110, 101, 119, 32, 32, 124, 32, 32, 47, 99, 108, 101, 97, 114, 32, 32, 124, 32, 32, 47,
      115, 116, 111, 112, 10, 10, 79, 112, 116, 105, 111, 110, 115, 10, 32, 32, 47, 116, 104,
      105, 110, 107, 32, 60, 108, 101, 118, 101, 108, 62, 32, 32, 124, 32, 32, 47, 109, 111, 100,
      101, 108, 32, 60, 105, 100, 62, 32, 32, 124, 32, 32, 47, 118, 101, 114, 98, 111, 115, 101,
      32, 111, 110, 124, 111, 102, 102, 10, 10, 83, 116, 97, 116, 117, 115, 10, 32, 32, 47, 115,
      116, 97, 116, 117, 115, 32, 32, 124, 32, 32, 47, 119, 104, 111, 97, 109, 105, 32, 32, 124,
      32, 32, 47, 99, 111, 110, 116, 101, 120, 116, 10, 10, 25152, 26377, 32, 79, 112, 101, 110,
      67, 108, 97, 119, 32, 21629, 20196, 22343, 21487, 30452, 25509, 20351, 29992, 10, 26356,
      22810, 58, 32, 47, 99, 111, 109, 109, 97, 110, 100, 115]"

definition cmdWhoami ::
  "session_epochs \<Rightarrow> jstring \<Rightarrow> js_id \<Rightarrow> jstring \<Rightarrow> jstring \<Rightarrow> js_id \<Rightarrow> jstring" where
  "cmdWhoami epochs sessionBase userId nick messageType groupId =
     join [0x0A]
       [[55357, 56420, 32] @ nick,
        js ''QQ: '' @ to_str userId,
        [31867, 22411, 58, 32]
          @ (if messageType = js ''private'' then [31169, 32842]
             else [32676, 32842, 32, 40] @ to_str groupId @ js '')''),
        js ''Session: '' @ getSessionKey epochs sessionBase]"

definition local_command ::
  "session_epochs \<Rightarrow> jstring \<Rightarrow> js_id \<Rightarrow> jstring \<Rightarrow> jstring \<Rightarrow> js_id \<Rightarrow> jstring
     \<Rightarrow> jstring option" where
  "local_command epochs sessionBase userId nick messageType groupId text =
     (let word = takeWhile (\<lambda>c. c \<noteq> 0x20) text;
          cmd = toLowerCase (if 0x20 \<in> set text \<and> word \<noteq> [] then word else text)
      in if cmd = js ''/help'' then Some cmdHelp
         else if cmd = js ''/whoami''
         then Some (cmdWhoami epochs sessionBase userId nick messageType groupId)
         else None)"

text \<open>
  The lines for the media of the message, with the downloads into the cache; \<open>k\<close> counts
  the downloads made. \<open>path.extname\<close> of a name is the extension of its last component.
\<close>

definition media_line :: "ExtractedMedia \<Rightarrow> jstring \<Rightarrow> jstring" where
  "media_line m location =
     js ''['' @ media_type_name (media_kind m) @ js '': '' @ location
     @ (if nonempty (media_name m) then js '' ('' @ the (media_name m) @ js '')'' else [])
     @ js '']''"

fun media_ext :: "ExtractedMedia \<Rightarrow> jstring" where
  "media_ext m =
     (if nonempty (media_name m) then extname (basename (the (media_name m)))
      else (case media_kind m of
              Image \<Rightarrow> js ''.jpg'' | File \<Rightarrow> [] | Voice \<Rightarrow> js ''.amr'' | Video \<Rightarrow> js ''.mp4''))"

fun media_lines ::
  "PluginConfig \<Rightarrow> (nat \<Rightarrow> download_env) \<Rightarrow> nat \<Rightarrow> ExtractedMedia list \<Rightarrow> cache_dir option
     \<Rightarrow> jstring list \<times> cache_dir option" where
  "media_lines cfg envs k [] fs = ([], fs)"
| "media_lines cfg envs k (m # ms) fs =
     (if cacheEnabled (media cfg) \<and> media_url m \<noteq> []
      then (case downloadMedia (envs k) cfg (media_ext m) fs of
              (Some localPath, fs') \<Rightarrow>
                (case media_lines cfg envs (Suc k) ms fs' of
                   (ls, fs'') \<Rightarrow> (media_line m (js ''file://'' @ localPath) # ls, fs''))
            | (None, fs') \<Rightarrow>
                (case media_lines cfg envs (Suc k) ms fs' of
                   (ls, fs'') \<Rightarrow> (media_line m (media_url m) # ls, fs'')))
      else (case media_lines cfg envs k ms fs of
              (ls, fs') \<Rightarrow> (media_line m (media_url m) # ls, fs')))"

text \<open>The message for the gateway: identity header, quoted message, text, media lines.\<close>

definition identity_header :: "jstring \<Rightarrow> js_id \<Rightarrow> jstring \<Rightarrow> js_id \<Rightarrow> jstring \<Rightarrow> jstring" where
  "identity_header nick userId messageType groupId groupName =
     join (js '' | '')
       ([[0x5B, 0x53D1, 0x9001, 0x8005, 0x3A, 0x20] @ nick @ js '' (QQ: '' @ to_str userId @ js '')'']
        @ (if messageType = js ''group'' \<and> truthy groupId
           then [[0x7FA4, 0x3A, 0x20] @ (if groupName \<noteq> [] then groupName else to_str groupId)
                 @ js '' ('' @ to_str groupId @ js '')'']
           else [])
        @ [if messageType = js ''private'' then [0x79C1, 0x804A, 0x5D] else [0x7FA4, 0x804A, 0x5D]])"

definition build_message :: "jstring \<Rightarrow> jstring \<Rightarrow> jstring \<Rightarrow> jstring list \<Rightarrow> jstring" where
  "build_message identityHeader replyContext text mediaLines =
     identityHeader @ [0x0A]
     @ (if replyContext \<noteq> [] then replyContext @ [0x0A] else [])
     @ text
     @ (if mediaLines \<noteq> [] then [0x0A, 0x0A] @ join [0x0A] mediaLines else [])"

text \<open>
  The command of the fallback: \<open>openclawMessage.replace(/'/g, "'\\''")\<close> and the template
  of \<open>execAsync\<close>.
\<close>

definition escape_quotes :: "jstring \<Rightarrow> jstring" where
  "escape_quotes s = concat (map (\<lambda>c. if c = 0x27 then [0x27, 0x5C, 0x27, 0x27] else [c]) s)"

definition cli_command :: "PluginConfig \<Rightarrow> jstring \<Rightarrow> jstring \<Rightarrow> jstring" where
  "cli_command cfg sessKey openclawMessage =
     js ''OPENCLAW_TOKEN='' @ [0x27] @ token (openclaw cfg) @ [0x27] @ js '' ''
     @ cliPath (openclaw cfg) @ js '' agent --session-id '' @ [0x27] @ sessKey @ [0x27]
     @ js '' --message '' @ [0x27] @ escape_quotes openclawMessage @ [0x27] @ js '' 2>&1''"

definition failure_text :: "jstring \<Rightarrow> jstring" where
  "failure_text e = [0x5904, 0x7406, 0x51FA, 0x9519, 0x3A, 0x20] @ take 100 e"

text \<open>
  The round trip through the gateway and its fallback: the inner \<open>try\<close> with its
  \<open>catch (e)\<close>, and in that the \<open>try\<close> around the command line client with its
  \<open>catch (e2)\<close>. The result is what is thrown out of each, if anything.
\<close>

definition gateway_try ::
  "message_env \<Rightarrow> PluginConfig \<Rightarrow> jstring \<Rightarrow> js_id \<Rightarrow> js_id \<Rightarrow> js_id \<Rightarrow> jstring \<Rightarrow> jstring
     \<Rightarrow> world \<Rightarrow> unit outcome \<times> world" where
  "gateway_try env cfg messageType groupId userId eventMessageId sessKey openclawMessage w =
     (case gateway_connect env of
        Threw e \<Rightarrow> (Threw e, w)
      | Returned u \<Rightarrow>
          let w1 = w\<lparr>requests := requests w @ [(sessKey, openclawMessage)]\<rparr>
          in case gateway_request env of
               Threw e \<Rightarrow> (Threw e, w1)
             | Returned u \<Rightarrow>
                 (case reply env of
                    None \<Rightarrow> (Returned (), w1)
                  | Some r \<Rightarrow>
                      if r \<noteq> []
                      then sendReply (bus env) cfg messageType groupId userId r eventMessageId w1
                      else (Returned (), w1)))"

definition cli_fallback ::
  "message_env \<Rightarrow> PluginConfig \<Rightarrow> jstring \<Rightarrow> js_id \<Rightarrow> js_id \<Rightarrow> js_id \<Rightarrow> jstring \<Rightarrow> jstring
     \<Rightarrow> jstring \<Rightarrow> world \<Rightarrow> unit outcome \<times> world" where
  "cli_fallback env cfg messageType groupId userId eventMessageId sessKey openclawMessage e w =
     (let w1 = w\<lparr>cli_runs := cli_runs w @ [(cli_command cfg sessKey openclawMessage, 180000)]\<rparr>;
          attempt =
            (case cli_result env of
               Threw e2 \<Rightarrow> (Threw e2, w1)
             | Returned stdout \<Rightarrow>
                 if trim stdout \<noteq> []
                 then sendReply (bus env) cfg messageType groupId userId (trim stdout)
                        eventMessageId w1
                 else (Returned (), w1))
      in case attempt of
           (Returned u, w2) \<Rightarrow> (Returned (), w2)
         | (Threw e2, w2) \<Rightarrow>
             sendReply (bus env) cfg messageType groupId userId (failure_text e)
               eventMessageId w2)"

text \<open>
  \<open>plugin_onmessage\<close>. The outermost \<open>catch\<close> logs what is thrown: the handler always
  returns, with the state of the module and the world as they then are. The call that sets
  the typing indicator is started and not awaited; here it has returned before the round
  trip starts.
\<close>

definition plugin_onmessage ::
  "message_env \<Rightarrow> bus_event \<Rightarrow> plugin_state \<times> world \<Rightarrow> plugin_state \<times> world" where
  "plugin_onmessage env ev sw =
     (case sw of (st, w) \<Rightarrow>
        if \<not> logger_set st then (st, w)
        else if post_type ev \<noteq> js ''message'' then (st, w)
        else
          let userId = user_id ev;
              nick = (if nonempty (nickname ev) then the (nickname ev) else [0x672A, 0x77E5]);
              messageType = message_type ev;
              groupId = group_id ev;
              eventMessageId = message_id ev;
              st1 = (if \<not> truthy (botUserId st) \<and> truthy (self_id ev)
                     then st\<lparr>botUserId := self_id ev\<rparr> else st);
              cfg = currentConfig st1
          in if \<not> should_handle env cfg (botUserId st1) ev then (st1, w)
             else
               case extractMessage (botUserId st1)
                      (case segments ev of None \<Rightarrow> [] | Some segs \<Rightarrow> segs) of
                 (text, extractedMedia, replyMessageId) \<Rightarrow>
                   if text = [] \<and> extractedMedia = [] \<and> \<not> nonempty replyMessageId
                   then (st1, w)
                   else
                     let replyContext =
                           (if nonempty replyMessageId \<and> resolveReply (behavior cfg)
                               \<and> nonempty (resolved_reply env)
                            then the (resolved_reply env) else []);
                         sessionBase = getSessionBase cfg messageType userId groupId
                     in if startsWith text (js ''/'') \<and> commandAdminOnly (behavior cfg)
                           \<and> adminQQ (behavior cfg) \<noteq> []
                           \<and> \<not> listed env (adminQQ (behavior cfg)) userId
                        then (st1, w)
                        else
                          case (if startsWith text (js ''/'')
                                then local_command (sessionEpochs st1) sessionBase userId nick
                                       messageType groupId text
                                else None) of
                            Some result \<Rightarrow>
                              (st1, snd (sendReply (bus env) cfg messageType groupId userId
                                           result eventMessageId w))
                          | None \<Rightarrow>
                              let groupName = (if messageType = js ''group'' \<and> truthy groupId
                                               then group_name env else []);
                                  identityHeader =
                                    identity_header nick userId messageType groupId groupName
                              in case media_lines cfg (downloads env) 0 extractedMedia (cache st1) of
                                   (mediaLines, fs') \<Rightarrow>
                                     let openclawMessage =
                                           build_message identityHeader replyContext text mediaLines;
                                         w1 = (if messageType = js ''private''
                                               then snd (action_call (bus env)
                                                      (SetInputStatus (to_str userId) True) w)
                                               else w);
                                         sessKey = getSessionKey (sessionEpochs st1) sessionBase;
                                         st2 = st1\<lparr>cache := fs'\<rparr>
                                     in case gateway_try env cfg messageType groupId userId
                                               eventMessageId sessKey openclawMessage w1 of
                                          (Returned u, w2) \<Rightarrow> (st2\<lparr>gatewayClient_set := True\<rparr>, w2)
                                        | (Threw e, w2) \<Rightarrow>
                                            (st2\<lparr>gatewayClient_set := False\<rparr>,
                                             snd (cli_fallback env cfg messageType groupId userId
                                                    eventMessageId sessKey openclawMessage e w2)))"

text \<open>An example: a private text message of user 123, and a world that answers.\<close>

definition text_event :: "string \<Rightarrow> bus_event" where
  "text_event t =
     \<lparr>post_type = js ''message'', user_id = IdNum 123, nickname = Some (js ''Ann''),
      message_type = js ''private'', group_id = IdUndef, message_id = IdNum 7,
      self_id = IdNum 999,
      segments = Some [\<lparr>seg_type = js ''text'', seg_text = Some (js t), seg_url = None,
                        seg_qq = IdUndef, seg_name = None, seg_id = IdUndef,
                        seg_summary = None\<rparr>]\<rparr>"

definition example_env :: "unit outcome \<Rightarrow> jstring outcome \<Rightarrow> message_env" where
  "example_env connect cli =
     \<lparr>parse_number = (\<lambda>s. None), resolved_reply = None, group_name = [],
      downloads = (\<lambda>k. \<lparr>fetched = FetchThrows, uuid = js ''u'', clock_ms = 0,
                          mkdir_throws = False, write_throws = False\<rparr>),
      gateway_connect = connect, gateway_request = Returned (), reply = None,
      cli_result = cli, bus = steady_bus 0\<rparr>"

definition example_state :: plugin_state where
  "example_state =
     \<lparr>logger_set = True, botUserId = IdNull, currentConfig = example_config,
      gatewayClient_set = False, sessionEpochs = Map.empty, cache = None\<rparr>"

text \<open>The identity header of that message.\<close>

definition example_header :: jstring where
  "example_header =
     [0x5B, 0x53D1, 0x9001, 0x8005, 0x3A, 0x20] @ js ''Ann (QQ: 123) | '' @ [0x79C1, 0x804A, 0x5D]"



section \<open>Session identity\<close>

text \<open>
  Claim C3. The session base depends only on the message scope, the participant and the
  configuration: a private message gives \<open>qq-<userId>\<close>, a group message gives
  \<open>qq-g<groupId>\<close> under the shared policy and \<open>qq-g<groupId>-<userId>\<close> under the
  per-user policy. The session key of a base is the base itself when its epoch is 0 and
  \<open><base>-<epoch>\<close> otherwise; epochs are counters that start at 0, so the statement is
  for epochs that are not negative.
\<close>

theorem session_base_and_key:
  "getSessionBase cfg (js ''private'') userId groupId = js ''qq-'' @ to_str userId
   \<and> getSessionBase cfg (js ''group'') userId groupId =
       (case groupSessionMode (behavior cfg) of
          ModeShared \<Rightarrow> js ''qq-g'' @ to_str groupId
        | ModeUser \<Rightarrow> js ''qq-g'' @ to_str groupId @ js ''-'' @ to_str userId)
   \<and> (0 \<le> epoch_of eps base \<longrightarrow>
        getSessionKey eps base =
          (if epoch_of eps base = 0 then base
           else base @ js ''-'' @ string_of_int (epoch_of eps base)))"
  by (auto simp: getSessionBase_def getSessionKey_def js_def Let_def
      split: group_session_mode.splits)

theorem session_base_and_key_witness:
  "0 \<le> epoch_of [js ''qq-42'' \<mapsto> 3] (js ''qq-42'')
   \<and> getSessionKey [js ''qq-42'' \<mapsto> 3] (js ''qq-42'') = js ''qq-42-3''
   \<and> getSessionKey [js ''qq-42'' \<mapsto> 3] (js ''qq-7'') = js ''qq-7''"
  using session_base_and_key [of _ _ _ "[js ''qq-42'' \<mapsto> 3]" "js ''qq-42''"]
    session_base_and_key [of _ _ _ "[js ''qq-42'' \<mapsto> 3]" "js ''qq-7''"]
  by (simp add: epoch_of_def js_def string_of_int_def digits.simps)

section \<open>The reply promise: lemmas\<close>

lemma resolve_fields:
  "eventHandlers (resolve w v s) = eventHandlers s"
  "timers (resolve w v s) = timers s"
  "nextWaiter (resolve w v s) = nextWaiter s"
  "promises (resolve w v s) w' =
     (if w' = w \<and> promises s w = None then Some v else promises s w')"
  by (auto simp: resolve_def split: option.splits)

lemma cleanup_fields:
  "eventHandlers (cleanup w s) = (eventHandlers s)(js ''chat'' := None)"
  "timers (cleanup w s) = filter (\<lambda>(w', d). w' \<noteq> w) (timers s)"
  "nextWaiter (cleanup w s) = nextWaiter s"
  "promises (cleanup w s) = promises s"
  by (simp_all add: cleanup_def)










































lemma handler_final:
  "key_matches key p \<Longrightarrow> state p = js ''final'' \<Longrightarrow>
   chat_handler w key (Some p) s
     = resolve w (text_or_null (extractTextFromPayload (message p))) (cleanup w s)"
  by (simp add: chat_handler_def Let_def js_def extractContentText_def)

lemma handler_aborted:
  "key_matches key p \<Longrightarrow> state p = js ''aborted'' \<Longrightarrow>
   chat_handler w key (Some p) s = resolve w (Some abort_notice) (cleanup w s)"
  by (simp add: chat_handler_def Let_def js_def)

lemma handler_error:
  "key_matches key p \<Longrightarrow> state p = js ''error'' \<Longrightarrow>
   chat_handler w key (Some p) s = resolve w (Some (error_reply (errorMessage p))) (cleanup w s)"
  by (simp add: chat_handler_def Let_def js_def)

lemma handler_other:
  "state p \<notin> {js ''final'', js ''aborted'', js ''error''} \<Longrightarrow>
   chat_handler w key (Some p) s = s"
  by (simp add: chat_handler_def Let_def)

lemma settle_fields:
  "eventHandlers (resolve w v (cleanup w s)) (js ''chat'') = None"
  "w \<notin> fst ` set (timers (resolve w v (cleanup w s)))"
  "promises s w = None \<Longrightarrow> promises (resolve w v (cleanup w s)) w = Some v"
  by (auto simp: resolve_fields cleanup_fields)

lemma foldl_block_text:
  "foldl (\<lambda>text b. text @ block_text b) acc bs = acc @ concat (map block_text bs)"
  by (induction bs arbitrary: acc) auto

lemma block_text_cases:
  "block_text = (\<lambda>b. case b of BlockString u \<Rightarrow> u | BlockObject (Some u) \<Rightarrow> u
      | BlockObject None \<Rightarrow> [] | BlockNull \<Rightarrow> [])"
  by (rule ext) (auto split: content_block.splits option.splits)

lemma trim_strips:
  "\<exists>a b. t = a @ trim t @ b \<and> (\<forall>c \<in> set a. is_space c) \<and> (\<forall>c \<in> set b. is_space c)
     \<and> (trim t \<noteq> [] \<longrightarrow> \<not> is_space (hd (trim t)) \<and> \<not> is_space (last (trim t)))"
proof -
  let ?a = "takeWhile is_space t"
  let ?u = "dropWhile is_space t"
  let ?b = "rev (takeWhile is_space (rev ?u))"
  have tr: "trim t = rev (dropWhile is_space (rev ?u))" by (simp add: trim_def)
  have "rev (takeWhile is_space (rev ?u) @ dropWhile is_space (rev ?u)) = rev (rev ?u)"
    by (simp only: takeWhile_dropWhile_id)
  then have "rev (dropWhile is_space (rev ?u)) @ ?b = ?u"
    by (simp only: rev_append rev_rev_ident)
  then have u: "?u = trim t @ ?b" by (simp only: tr)
  have "t = ?a @ ?u" by simp
  then have split: "t = ?a @ trim t @ ?b" using u by simp
  have a: "\<forall>c \<in> set ?a. is_space c" by (auto dest: set_takeWhileD)
  have b: "\<forall>c \<in> set ?b. is_space c" by (auto dest: set_takeWhileD)
  have ends: "trim t \<noteq> [] \<longrightarrow> \<not> is_space (hd (trim t)) \<and> \<not> is_space (last (trim t))"
  proof
    assume ne: "trim t \<noteq> []"
    then have d: "dropWhile is_space (rev ?u) \<noteq> []" by (simp add: tr)
    have "last (trim t) = hd (dropWhile is_space (rev ?u))"
      using d by (simp add: tr last_rev)
    then have l: "\<not> is_space (last (trim t))" using d hd_dropWhile by metis
    have une: "?u \<noteq> []" using u ne by (metis Nil_is_append_conv)
    have "hd (trim t) = hd ?u" using u ne by (metis hd_append2)
    then have h: "\<not> is_space (hd (trim t))" using une hd_dropWhile by metis
    from h l show "\<not> is_space (hd (trim t)) \<and> \<not> is_space (last (trim t))" by simp
  qed
  from split a b ends show ?thesis by blast
qed















section \<open>Terminal states of a chat event\<close>

text \<open>
  Claim C5, as the code has it. For a pending waiter and an event whose session key
  matches, only the states \<open>final\<close>, \<open>aborted\<close> and \<open>error\<close> are terminal; each of them
  removes the handler and clears the timer. A \<open>final\<close> event resolves the promise with the
  text extracted from the message of the payload after \<open>trim()\<close>, and with null when
  nothing is left of it. The extracted text is the message itself when it is a string; for
  an object with an array of content blocks the concatenation of the string blocks and of
  the \<open>text\<close> of the object blocks; for a single block that block's text; for an object
  whose content is missing, null or the empty string its \<open>text\<close> field, the empty string
  when there is none; and the empty string for a missing message. \<open>trim()\<close> removes
  the white space at both ends and nothing else. An \<open>aborted\<close> event resolves the promise
  with the abort notice, an \<open>error\<close> event with the cross mark, a space and the error
  message, a fixed text standing in for a missing or empty one. A \<open>delta\<close> event, like
  every other state, leaves everything as it was.
\<close>

theorem terminal_states:
  assumes km: "key_matches key p" and pend: "promises s w = None"
    and s': "s' = chat_handler w key (Some p) s"
    and extracted: "extracted = extractTextFromPayload (message p)"
  shows "(state p = js ''final'' \<longrightarrow>
            promises s' w = Some (if trim extracted = [] then None else Some (trim extracted))
            \<and> eventHandlers s' (js ''chat'') = None \<and> w \<notin> fst ` set (timers s'))
       \<and> (message p = None \<longrightarrow> extracted = [])
       \<and> (\<forall>t. message p = Some (MsgString t) \<longrightarrow> extracted = t)
       \<and> (\<forall>bs t. message p = Some (MsgObject (Some (ContentArray bs)) t) \<longrightarrow>
            extracted = concat (map (\<lambda>b. case b of BlockString u \<Rightarrow> u | BlockObject (Some u) \<Rightarrow> u
                                 | BlockObject None \<Rightarrow> [] | BlockNull \<Rightarrow> []) bs))
       \<and> (\<forall>u t. message p = Some (MsgObject (Some (ContentSingle (BlockString u))) t) \<and> u \<noteq> []
            \<longrightarrow> extracted = u)
       \<and> (\<forall>u t. message p = Some (MsgObject (Some (ContentSingle (BlockObject u))) t) \<longrightarrow>
            extracted = (case u of None \<Rightarrow> [] | Some v \<Rightarrow> v))
       \<and> (\<forall>c t. message p = Some (MsgObject c t)
              \<and> (c = None \<or> c = Some (ContentSingle BlockNull)
                  \<or> c = Some (ContentSingle (BlockString []))) \<longrightarrow>
            extracted = (case t of None \<Rightarrow> [] | Some v \<Rightarrow> v))
       \<and> (\<exists>a b. extracted = a @ trim extracted @ b \<and> (\<forall>c \<in> set a. is_space c) \<and> (\<forall>c \<in> set b. is_space c)
              \<and> (trim extracted \<noteq> [] \<longrightarrow> \<not> is_space (hd (trim extracted)) \<and> \<not> is_space (last (trim extracted))))
       \<and> (state p = js ''aborted'' \<longrightarrow>
            promises s' w = Some (Some [0x23F9, 0x20, 0x5DF2, 0x4E2D, 0x6B62])
            \<and> eventHandlers s' (js ''chat'') = None \<and> w \<notin> fst ` set (timers s'))
       \<and> (state p = js ''error'' \<longrightarrow>
            promises s' w = Some (Some ([0x274C, 0x20]
              @ (case errorMessage p of
                   None \<Rightarrow> [0x5904, 0x7406, 0x51FA, 0x9519]
                 | Some m \<Rightarrow> if m = [] then [0x5904, 0x7406, 0x51FA, 0x9519] else m)))
            \<and> eventHandlers s' (js ''chat'') = None \<and> w \<notin> fst ` set (timers s'))
       \<and> (state p = js ''delta'' \<longrightarrow> s' = s)
       \<and> (state p \<notin> {js ''final'', js ''aborted'', js ''error''} \<longrightarrow> s' = s)"
proof -
  have final: "state p = js ''final'' \<longrightarrow>
      promises s' w = Some (if trim extracted = [] then None else Some (trim extracted))
      \<and> eventHandlers s' (js ''chat'') = None \<and> w \<notin> fst ` set (timers s')"
    using km pend by (simp add: s' extracted handler_final settle_fields text_or_null_def)
  have aborted: "state p = js ''aborted'' \<longrightarrow>
      promises s' w = Some (Some [0x23F9, 0x20, 0x5DF2, 0x4E2D, 0x6B62])
      \<and> eventHandlers s' (js ''chat'') = None \<and> w \<notin> fst ` set (timers s')"
    using km pend by (simp add: s' handler_aborted settle_fields abort_notice_def)
  have error: "state p = js ''error'' \<longrightarrow>
      promises s' w = Some (Some ([0x274C, 0x20]
        @ (case errorMessage p of
             None \<Rightarrow> [0x5904, 0x7406, 0x51FA, 0x9519]
           | Some m \<Rightarrow> if m = [] then [0x5904, 0x7406, 0x51FA, 0x9519] else m)))
      \<and> eventHandlers s' (js ''chat'') = None \<and> w \<notin> fst ` set (timers s')"
    using km pend
    by (simp add: s' handler_error settle_fields error_reply_def split: option.splits)
  have other: "state p \<notin> {js ''final'', js ''aborted'', js ''error''} \<longrightarrow> s' = s"
    by (simp add: s' handler_other)
  have delta: "state p = js ''delta'' \<longrightarrow> s' = s"
    using other by (simp add: js_def)
  have none: "message p = None \<longrightarrow> extracted = []" by (simp add: extracted)
  have str: "\<forall>t. message p = Some (MsgString t) \<longrightarrow> extracted = t" by (simp add: extracted)
  have arr: "\<forall>bs t. message p = Some (MsgObject (Some (ContentArray bs)) t) \<longrightarrow>
      extracted = concat (map (\<lambda>b. case b of BlockString u \<Rightarrow> u | BlockObject (Some u) \<Rightarrow> u
                           | BlockObject None \<Rightarrow> [] | BlockNull \<Rightarrow> []) bs)"
  proof (intro allI impI)
    fix bs t
    assume m: "message p = Some (MsgObject (Some (ContentArray bs)) t)"
    have "extracted = concat (map block_text bs)"
      by (simp add: extracted m foldl_block_text)
    then show "extracted = concat (map (\<lambda>b. case b of BlockString u \<Rightarrow> u
        | BlockObject (Some u) \<Rightarrow> u | BlockObject None \<Rightarrow> [] | BlockNull \<Rightarrow> []) bs)"
      by (simp only: block_text_cases)
  qed
  have one: "\<forall>u t. message p = Some (MsgObject (Some (ContentSingle (BlockString u))) t) \<and> u \<noteq> []
      \<longrightarrow> extracted = u"
    by (simp add: extracted)
  have obj: "\<forall>u t. message p = Some (MsgObject (Some (ContentSingle (BlockObject u))) t) \<longrightarrow>
      extracted = (case u of None \<Rightarrow> [] | Some v \<Rightarrow> v)"
    by (auto simp: extracted split: option.splits)
  have falsy: "\<forall>c t. message p = Some (MsgObject c t)
        \<and> (c = None \<or> c = Some (ContentSingle BlockNull)
            \<or> c = Some (ContentSingle (BlockString []))) \<longrightarrow>
      extracted = (case t of None \<Rightarrow> [] | Some v \<Rightarrow> v)"
    by (auto simp: extracted)
  have strip: "\<exists>a b. extracted = a @ trim extracted @ b \<and> (\<forall>c \<in> set a. is_space c) \<and> (\<forall>c \<in> set b. is_space c)
      \<and> (trim extracted \<noteq> [] \<longrightarrow> \<not> is_space (hd (trim extracted)) \<and> \<not> is_space (last (trim extracted)))"
    by (rule trim_strips)
  show ?thesis
    apply (intro conjI)
                apply (rule final)
               apply (rule none)
              apply (rule str)
             apply (rule arr)
            apply (rule one)
           apply (rule obj)
          apply (rule falsy)
         apply (rule strip)
        apply (rule aborted)
       apply (rule error)
      apply (rule delta)
     apply (rule other)
    done
qed

theorem terminal_states_witness:
  "extractTextFromPayload (message (block_event ''final'' ''agent:main:qq-1''
      [BlockObject (Some (js '' Hello'')), BlockString (js '', world ''), BlockNull]))
     = js '' Hello, world ''
   \<and> promises (chat_handler 0 (js ''qq-1'')
      (Some (block_event ''final'' ''agent:main:qq-1''
         [BlockObject (Some (js '' Hello'')), BlockString (js '', world ''), BlockNull]))
      (snd (register_waiter 0 (js ''qq-1'') init_engine))) 0 = Some (Some (js ''Hello, world''))
   \<and> promises (chat_handler 0 (js ''qq-1'') (Some (chat_event ''final'' ''qq-1'' '' hi ''))
      (snd (register_waiter 0 (js ''qq-1'') init_engine))) 0 = Some (Some (js ''hi''))
   \<and> promises (chat_handler 0 (js ''qq-1'') (Some (chat_event ''aborted'' ''qq-1'' ''x''))
      (snd (register_waiter 0 (js ''qq-1'') init_engine))) 0
       = Some (Some [0x23F9, 0x20, 0x5DF2, 0x4E2D, 0x6B62])
   \<and> promises (chat_handler 0 (js ''qq-1'')
      (Some (error_event ''qq-1'' (Some (js ''quota exceeded''))))
      (snd (register_waiter 0 (js ''qq-1'') init_engine))) 0
       = Some (Some ([0x274C, 0x20] @ js ''quota exceeded''))
   \<and> chat_handler 0 (js ''qq-1'') (Some (chat_event ''delta'' ''qq-1'' ''par''))
      (snd (register_waiter 0 (js ''qq-1'') init_engine))
       = snd (register_waiter 0 (js ''qq-1'') init_engine)"
proof -
  let ?s = "snd (register_waiter 0 (js ''qq-1'') init_engine)"
  let ?k = "js ''qq-1''"
  let ?blocks = "block_event ''final'' ''agent:main:qq-1''
      [BlockObject (Some (js '' Hello'')), BlockString (js '', world ''), BlockNull]"
  let ?final = "chat_event ''final'' ''qq-1'' '' hi ''"
  let ?aborted = "chat_event ''aborted'' ''qq-1'' ''x''"
  let ?error = "error_event ''qq-1'' (Some (js ''quota exceeded''))"
  let ?delta = "chat_event ''delta'' ''qq-1'' ''par''"
  have pending: "promises ?s 0 = None"
    by (simp add: register_waiter_def init_engine_def)
  have m1: "key_matches ?k ?blocks" and m2: "key_matches ?k ?final"
    and m3: "key_matches ?k ?aborted" and m4: "key_matches ?k ?error"
    and m5: "key_matches ?k ?delta"
    by (simp_all add: key_matches_def chat_event_def block_event_def error_event_def js_def
        endsWith_def)
  have st1: "state ?blocks = js ''final''" and st2: "state ?final = js ''final''"
    and st3: "state ?aborted = js ''aborted''" and st4: "state ?error = js ''error''"
    and st5: "state ?delta = js ''delta''"
    by (simp_all add: chat_event_def block_event_def error_event_def)
  have msg1: "message ?blocks = Some (MsgObject (Some (ContentArray
      [BlockObject (Some (js '' Hello'')), BlockString (js '', world ''), BlockNull])) None)"
    by (simp add: block_event_def)
  have x1: "extractTextFromPayload (message ?blocks) = js '' Hello, world ''"
    using terminal_states [OF m1 pending refl refl, THEN conjunct2, THEN conjunct2,
        THEN conjunct2, THEN conjunct1, THEN spec, THEN spec, THEN mp, OF msg1]
    by (simp add: js_def)
  have v1: "trim (extractTextFromPayload (message ?blocks)) = js ''Hello, world''"
    unfolding x1 by (simp add: js_def trim_def is_space_def is_line_terminator_def)
  have v2: "trim (extractTextFromPayload (message ?final)) = js ''hi''"
    by (simp add: chat_event_def js_def trim_def is_space_def is_line_terminator_def)
  have ne: "js ''Hello, world'' \<noteq> []" "js ''hi'' \<noteq> []" "js ''quota exceeded'' \<noteq> []"
    by (simp_all add: js_def)
  have em: "errorMessage ?error = Some (js ''quota exceeded'')"
    by (simp add: error_event_def)
  note t1 = terminal_states [OF m1 pending refl refl]
  note t2 = terminal_states [OF m2 pending refl refl]
  note t3 = terminal_states [OF m3 pending refl refl]
  note t4 = terminal_states [OF m4 pending refl refl]
  note t5 = terminal_states [OF m5 pending refl refl]
  have r1: "promises (chat_handler 0 ?k (Some ?blocks) ?s) 0 = Some (Some (js ''Hello, world''))"
    using t1 [THEN conjunct1, THEN mp, OF st1, THEN conjunct1] by (simp only: v1 ne if_False)
  have r2: "promises (chat_handler 0 ?k (Some ?final) ?s) 0 = Some (Some (js ''hi''))"
    using t2 [THEN conjunct1, THEN mp, OF st2, THEN conjunct1] by (simp only: v2 ne if_False)
  have r3: "promises (chat_handler 0 ?k (Some ?aborted) ?s) 0
      = Some (Some [0x23F9, 0x20, 0x5DF2, 0x4E2D, 0x6B62])"
    using t3 [THEN conjunct2, THEN conjunct2, THEN conjunct2, THEN conjunct2, THEN conjunct2,
        THEN conjunct2, THEN conjunct2, THEN conjunct2, THEN conjunct1, THEN mp, OF st3,
        THEN conjunct1] .
  have r4: "promises (chat_handler 0 ?k (Some ?error) ?s) 0
      = Some (Some ([0x274C, 0x20] @ js ''quota exceeded''))"
    using t4 [THEN conjunct2, THEN conjunct2, THEN conjunct2, THEN conjunct2, THEN conjunct2,
        THEN conjunct2, THEN conjunct2, THEN conjunct2, THEN conjunct2, THEN conjunct1,
        THEN mp, OF st4, THEN conjunct1]
    by (simp only: em option.case ne if_False)
  have r5: "chat_handler 0 ?k (Some ?delta) ?s = ?s"
    using t5 [THEN conjunct2, THEN conjunct2, THEN conjunct2, THEN conjunct2, THEN conjunct2,
        THEN conjunct2, THEN conjunct2, THEN conjunct2, THEN conjunct2, THEN conjunct2,
        THEN conjunct1, THEN mp, OF st5] .
  from x1 r1 r2 r3 r4 r5 show ?thesis by (intro conjI)
qed

text \<open>
  The claim as stated fails: a \<open>final\<close> event does not resolve the promise with the
  extracted text as it is. A message of two spaces resolves it with null, the message
  \<open>hi\<close> between two spaces with \<open>hi\<close> alone; and an \<open>error\<close> event that carries no
  error message resolves it with the cross mark and the fixed text.
\<close>

theorem final_reply_trimmed_or_null:
  "extractTextFromPayload (message (chat_event ''final'' ''qq-1'' ''  '')) = js ''  ''
   \<and> promises (chat_handler 0 (js ''qq-1'') (Some (chat_event ''final'' ''qq-1'' ''  ''))
        (snd (register_waiter 0 (js ''qq-1'') init_engine))) 0 = Some None
   \<and> extractTextFromPayload (message (chat_event ''final'' ''qq-1'' '' hi '')) = js '' hi ''
   \<and> promises (chat_handler 0 (js ''qq-1'') (Some (chat_event ''final'' ''qq-1'' '' hi ''))
        (snd (register_waiter 0 (js ''qq-1'') init_engine))) 0 = Some (Some (js ''hi''))
   \<and> errorMessage (error_event ''qq-1'' None) = None
   \<and> promises (chat_handler 0 (js ''qq-1'') (Some (error_event ''qq-1'' None))
        (snd (register_waiter 0 (js ''qq-1'') init_engine))) 0
       = Some (Some [0x274C, 0x20, 0x5904, 0x7406, 0x51FA, 0x9519])"
  by (simp add: register_waiter_def init_engine_def chat_event_def error_event_def js_def
      key_matches_def chat_handler_def resolve_def cleanup_def extractContentText_def
      endsWith_def text_or_null_def trim_def is_space_def is_line_terminator_def
      error_reply_def)

section \<open>One handler for each event type\<close>




section \<open>The 180 second timeout\<close>




section \<open>The media cache: lemmas\<close>

lemma sweep_loop_frame:
  "stat_of (sweep_loop now ttlMs fs d) = stat_of d \<and>
   removable (sweep_loop now ttlMs fs d) = removable d"
  by (induction fs arbitrary: d)
    (auto simp: statSync_def unlinkSync_def split: sum.splits option.splits if_splits)

lemma sweep_step:
  "(case statSync d f of
      Inl _ \<Rightarrow> d
    | Inr st \<Rightarrow>
        if now - mtimeMs st > ttlMs
        then (case unlinkSync d f of Inl _ \<Rightarrow> d | Inr d' \<Rightarrow> d')
        else d)
   = (if f \<in> set (entries d) \<and> sweeps now ttlMs d f
      then d\<lparr>entries := removeAll f (entries d)\<rparr> else d)"
  by (auto simp: statSync_def unlinkSync_def sweeps_def split: option.splits)

lemma sweeps_frame: "sweeps now ttlMs (d\<lparr>entries := es\<rparr>) = sweeps now ttlMs d"
  by (rule ext) (simp add: sweeps_def split: option.splits)

lemma sweep_loop_entries:
  "entries (sweep_loop now ttlMs fs d) =
     filter (\<lambda>f. \<not> (f \<in> set fs \<and> sweeps now ttlMs d f)) (entries d)"
proof (induction fs arbitrary: d)
  case Nil
  then show ?case by simp
next
  case (Cons f fs)
  show ?case
  proof (cases "f \<in> set (entries d) \<and> sweeps now ttlMs d f")
    case True
    then show ?thesis
      by (simp only: sweep_loop.simps sweep_step Cons.IH)
         (auto simp: sweeps_frame removeAll_filter_not_eq intro!: filter_cong)
  next
    case False
    then show ?thesis
      by (simp only: sweep_loop.simps sweep_step Cons.IH)
         (auto intro!: filter_cong)
  qed
qed

lemma stat_files_eq:
  "stat_files d =
     map (\<lambda>f. (f, the (stat_of d f))) (filter (\<lambda>f. stat_of d f \<noteq> None) (entries d))"
proof -
  have "\<And>xs. set xs \<subseteq> set (entries d) \<Longrightarrow>
      List.map_filter (\<lambda>f. case statSync d f of Inl _ \<Rightarrow> None | Inr st \<Rightarrow> Some (f, st)) xs
      = map (\<lambda>f. (f, the (stat_of d f))) (filter (\<lambda>f. stat_of d f \<noteq> None) xs)"
  proof -
    fix xs show "set xs \<subseteq> set (entries d) \<Longrightarrow>
      List.map_filter (\<lambda>f. case statSync d f of Inl _ \<Rightarrow> None | Inr st \<Rightarrow> Some (f, st)) xs
      = map (\<lambda>f. (f, the (stat_of d f))) (filter (\<lambda>f. stat_of d f \<noteq> None) xs)"
      by (induction xs) (auto simp: map_filter_simps statSync_def split: option.splits)
  qed
  then show ?thesis by (simp add: stat_files_def)
qed

lemma foldl_size:
  "set xs \<subseteq> set (entries d) \<Longrightarrow>
   foldl (\<lambda>total f. case statSync d f of Inl _ \<Rightarrow> total | Inr st \<Rightarrow> total + fsize st) a xs
     = a + sum_list (map (size_of d) xs)"
  by (induction xs arbitrary: a)
    (auto simp: statSync_def size_of_def split: option.splits)

lemma dir_size: "getCacheDirSize (Some d) = sum_list (map (size_of d) (entries d))"
  by (simp add: getCacheDirSize_def foldl_size)

lemma dir_size_entries:
  "stat_of d' = stat_of d \<Longrightarrow> size_of d' = size_of d"
  by (rule ext) (simp add: size_of_def)

lemma evict_loop_prefix:
  assumes "distinct (map fst files)"
    and "\<forall>f \<in> set files. fst f \<in> set (entries d) \<and> removable d (fst f)"
  shows "\<exists>k \<le> length files.
      evict_loop maxB need files (d, cur) =
        (d\<lparr>entries := filter (\<lambda>f. f \<notin> set (take k (map fst files))) (entries d)\<rparr>,
         cur - sum_list (map (\<lambda>f. fsize (snd f)) (take k files)))
      \<and> (cur - sum_list (map (\<lambda>f. fsize (snd f)) (take k files)) + need \<le> maxB
          \<or> k = length files)
      \<and> (\<forall>j < k. cur - sum_list (map (\<lambda>f. fsize (snd f)) (take j files)) + need > maxB)"
  using assms
proof (induction files arbitrary: d cur)
  case Nil
  then show ?case by simp
next
  case (Cons f files)
  show ?case
  proof (cases "cur + need \<le> maxB")
    case True
    then have "evict_loop maxB need (f # files) (d, cur) = (d, cur)" by simp
    then show ?thesis using True
      by (intro exI [of _ 0]) simp
  next
    case False
    let ?d1 = "d\<lparr>entries := removeAll (fst f) (entries d)\<rparr>"
    have un: "unlinkSync d (fst f) = Inr ?d1"
      using Cons.prems by (simp add: unlinkSync_def)
    have step: "evict_loop maxB need (f # files) (d, cur)
        = evict_loop maxB need files (?d1, cur - fsize (snd f))"
      using False un by simp
    have "distinct (map fst files)" using Cons.prems by simp
    moreover have "\<forall>g \<in> set files. fst g \<in> set (entries ?d1) \<and> removable ?d1 (fst g)"
    proof
      fix g assume g: "g \<in> set files"
      then have "fst g \<in> fst ` set files" by (rule imageI)
      moreover have "fst f \<notin> fst ` set files" using Cons.prems(1) by simp
      ultimately have "fst g \<noteq> fst f" by metis
      then show "fst g \<in> set (entries ?d1) \<and> removable ?d1 (fst g)"
        using Cons.prems(2) g by simp
    qed
    ultimately obtain k where k: "k \<le> length files"
      "evict_loop maxB need files (?d1, cur - fsize (snd f)) =
        (?d1\<lparr>entries := filter (\<lambda>f. f \<notin> set (take k (map fst files))) (entries ?d1)\<rparr>,
         cur - fsize (snd f) - sum_list (map (\<lambda>f. fsize (snd f)) (take k files)))"
      "cur - fsize (snd f) - sum_list (map (\<lambda>f. fsize (snd f)) (take k files)) + need \<le> maxB
          \<or> k = length files"
      "\<forall>j < k. cur - fsize (snd f) - sum_list (map (\<lambda>f. fsize (snd f)) (take j files)) + need > maxB"
      using Cons.IH [of ?d1 "cur - fsize (snd f)"] by blast
    have e: "filter (\<lambda>g. g \<notin> set (take k (map fst files))) (removeAll (fst f) (entries d))
        = filter (\<lambda>g. g \<notin> set (take (Suc k) (map fst (f # files)))) (entries d)"
      by (auto simp: removeAll_filter_not_eq intro!: filter_cong)
    have "\<forall>j < Suc k. cur - sum_list (map (\<lambda>f. fsize (snd f)) (take j (f # files))) + need > maxB"
    proof (intro allI impI)
      fix j assume "j < Suc k"
      then show "cur - sum_list (map (\<lambda>f. fsize (snd f)) (take j (f # files))) + need > maxB"
        using False k(4) by (cases j) (auto simp: algebra_simps)
    qed
    then show ?thesis using k step e
      by (intro exI [of _ "Suc k"]) (auto simp: algebra_simps)
  qed
qed

lemma healthy_stat_files:
  assumes "healthy d"
  shows "stat_files d = map (\<lambda>f. (f, the (stat_of d f))) (entries d)"
proof -
  have "filter (\<lambda>f. stat_of d f \<noteq> None) (entries d) = entries d"
    using assms by (auto simp: healthy_def intro!: filter_True)
  then show ?thesis by (simp add: stat_files_eq)
qed

lemma sorted_files:
  assumes "healthy d"
  defines "files \<equiv> sort_key (\<lambda>f. mtimeMs (snd f)) (stat_files d)"
  shows "set (map fst files) = set (entries d)"
    and "distinct (map fst files)"
    and "\<forall>f \<in> set files. stat_of d (fst f) = Some (snd f)"
    and "map (\<lambda>f. fsize (snd f)) files = map (size_of d) (eviction_order d)"
    and "map (\<lambda>f. mtimeMs (snd f)) files = map (mtime_of d) (eviction_order d)"
proof -
  have sf: "stat_files d = map (\<lambda>f. (f, the (stat_of d f))) (entries d)"
    using assms(1) by (rule healthy_stat_files)
  have "set files = set (stat_files d)" by (simp add: files_def)
  then have s: "set files = (\<lambda>f. (f, the (stat_of d f))) ` set (entries d)"
    by (simp add: sf)
  then show set: "set (map fst files) = set (entries d)" by (force simp: image_image)
  have "length (map fst files) = length (entries d)" by (simp add: files_def sf)
  moreover have "card (set (entries d)) = length (entries d)"
    using assms(1) by (simp add: healthy_def distinct_card)
  ultimately show "distinct (map fst files)"
    using set by (metis card_distinct)
  show st: "\<forall>f \<in> set files. stat_of d (fst f) = Some (snd f)"
    using s assms(1) by (auto simp: healthy_def)
  show "map (\<lambda>f. fsize (snd f)) files = map (size_of d) (eviction_order d)"
    using st by (simp add: eviction_order_def files_def size_of_def)
  show "map (\<lambda>f. mtimeMs (snd f)) files = map (mtime_of d) (eviction_order d)"
    using st by (simp add: eviction_order_def files_def mtime_of_def)
qed

lemma order_sorted:
  assumes "healthy d"
  shows "sorted (map (mtime_of d) (eviction_order d))"
proof -
  have "sorted (map (\<lambda>f. mtimeMs (snd f)) (sort_key (\<lambda>f. mtimeMs (snd f)) (stat_files d)))"
    by (rule sorted_sort_key)
  then show ?thesis using sorted_files(5) [OF assms] by simp
qed

lemma order_stable:
  assumes "healthy d"
  shows "filter (\<lambda>f. mtime_of d f = t) (eviction_order d)
       = filter (\<lambda>f. mtime_of d f = t) (entries d)"
proof -
  let ?key = "\<lambda>f::jstring \<times> file_stat. mtimeMs (snd f)"
  let ?files = "sort_key ?key (stat_files d)"
  have sf: "stat_files d = map (\<lambda>f. (f, the (stat_of d f))) (entries d)"
    using assms by (rule healthy_stat_files)
  have mt: "\<forall>f \<in> set ?files. mtime_of d (fst f) = ?key f"
    using sorted_files(3) [OF assms] by (simp add: mtime_of_def)
  have mt': "\<forall>f \<in> set (stat_files d). mtime_of d (fst f) = ?key f"
    using mt by simp
  have "filter (\<lambda>f. mtime_of d f = t) (eviction_order d)
      = map fst (filter (\<lambda>f. mtime_of d (fst f) = t) ?files)"
    by (simp add: eviction_order_def filter_map comp_def)
  also have "filter (\<lambda>f. mtime_of d (fst f) = t) ?files = filter (\<lambda>f. ?key f = t) ?files"
    using mt by (intro filter_cong) auto
  also have "\<dots> = filter (\<lambda>f. ?key f = t) (stat_files d)"
    by (rule sort_key_stable)
  also have "\<dots> = filter (\<lambda>f. mtime_of d (fst f) = t) (stat_files d)"
    using mt' by (intro filter_cong) auto
  also have "map fst \<dots> = filter (\<lambda>f. mtime_of d f = t) (map fst (stat_files d))"
    by (simp add: filter_map comp_def)
  also have "map fst (stat_files d) = entries d"
    by (simp add: sf comp_def)
  finally show ?thesis .
qed

lemma remaining_size:
  assumes "healthy d"
  shows "sum_list (map (size_of d) (filter (\<lambda>f. f \<notin> set (take k (eviction_order d))) (entries d)))
       = sum_list (map (size_of d) (entries d))
         - sum_list (map (size_of d) (take k (eviction_order d)))"
proof -
  let ?o = "eviction_order d"
  have set: "set ?o = set (entries d)" and dist: "distinct ?o"
    using sorted_files(1,2) [OF assms] by (simp_all add: eviction_order_def)
  have de: "distinct (entries d)" using assms by (simp add: healthy_def)
  have "set (take k ?o) \<inter> set (drop k ?o) = {}"
    using dist by (metis append_take_drop_id distinct_append)
  moreover have "set (take k ?o) \<union> set (drop k ?o) = set ?o"
    by (metis append_take_drop_id set_append)
  ultimately have "set (filter (\<lambda>f. f \<notin> set (take k ?o)) (entries d)) = set (drop k ?o)"
    using set by auto
  moreover have "distinct (filter (\<lambda>f. f \<notin> set (take k ?o)) (entries d))"
    using de by simp
  moreover have "distinct (drop k ?o)" using dist by simp
  ultimately have "sum_list (map (size_of d) (filter (\<lambda>f. f \<notin> set (take k ?o)) (entries d)))
      = sum_list (map (size_of d) (drop k ?o))"
    by (simp add: sum_list_distinct_conv_sum_set)
  moreover have "sum_list (map (size_of d) (entries d)) = sum_list (map (size_of d) ?o)"
    using set dist de by (simp add: sum_list_distinct_conv_sum_set)
  moreover have "sum_list (map (size_of d) ?o)
      = sum_list (map (size_of d) (take k ?o)) + sum_list (map (size_of d) (drop k ?o))"
    by (metis append_take_drop_id map_append sum_list_append)
  ultimately show ?thesis by simp
qed

lemma evict_healthy:
  assumes h: "healthy d"
    and cap_def: "cap = cacheMaxSizeMB (media cfg) * 1024 * 1024"
    and tot_def: "tot = getCacheDirSize (Some d)"
  shows "\<exists>k \<le> length (entries d).
      evictOldestFiles cfg n (Some d)
        = Some (d\<lparr>entries := filter (\<lambda>f. f \<notin> set (take k (eviction_order d))) (entries d)\<rparr>)
      \<and> (tot - sum_list (map (size_of d) (take k (eviction_order d))) + n \<le> cap
          \<or> k = length (entries d))
      \<and> (\<forall>j < k. tot - sum_list (map (size_of d) (take j (eviction_order d))) + n > cap)"
proof (cases "tot + n \<le> cap")
  case True
  then have "evictOldestFiles cfg n (Some d) = Some d"
    by (simp add: evictOldestFiles_def Let_def cap_def tot_def)
  then show ?thesis using True by (intro exI [of _ 0]) simp
next
  case False
  let ?files = "sort_key (\<lambda>f. mtimeMs (snd f)) (stat_files d)"
  have ev: "evictOldestFiles cfg n (Some d) = Some (fst (evict_loop cap n ?files (d, tot)))"
    using False by (simp add: evictOldestFiles_def Let_def cap_def tot_def)
  have len: "length ?files = length (entries d)"
    by (simp add: healthy_stat_files [OF h])
  have "\<forall>f \<in> set ?files. fst f \<in> set (entries d) \<and> removable d (fst f)"
  proof
    fix f assume "f \<in> set ?files"
    then have "fst f \<in> set (map fst ?files)" by simp
    then have "fst f \<in> set (entries d)" using sorted_files(1) [OF h] by simp
    then show "fst f \<in> set (entries d) \<and> removable d (fst f)"
      using h by (simp add: healthy_def)
  qed
  then obtain k where k: "k \<le> length ?files"
    "evict_loop cap n ?files (d, tot) =
        (d\<lparr>entries := filter (\<lambda>f. f \<notin> set (take k (map fst ?files))) (entries d)\<rparr>,
         tot - sum_list (map (\<lambda>f. fsize (snd f)) (take k ?files)))"
    "tot - sum_list (map (\<lambda>f. fsize (snd f)) (take k ?files)) + n \<le> cap \<or> k = length ?files"
    "\<forall>j < k. tot - sum_list (map (\<lambda>f. fsize (snd f)) (take j ?files)) + n > cap"
    using evict_loop_prefix [OF sorted_files(2) [OF h], of d cap n tot] by blast
  have sz: "\<And>j. map (\<lambda>f. fsize (snd f)) (take j ?files) = map (size_of d) (take j (eviction_order d))"
    using sorted_files(4) [OF h] by (metis take_map)
  show ?thesis
    using k ev len
    by (intro exI [of _ k]) (simp add: sz eviction_order_def)
qed

lemma evict_loop_frame:
  "stat_of (fst (evict_loop maxB need files (d, cur))) = stat_of d
   \<and> removable (fst (evict_loop maxB need files (d, cur))) = removable d
   \<and> set (entries (fst (evict_loop maxB need files (d, cur)))) \<subseteq> set (entries d)
   \<and> {f \<in> set (entries d). \<not> removable d f}
        \<subseteq> set (entries (fst (evict_loop maxB need files (d, cur))))"
proof (induction files arbitrary: d cur)
  case Nil
  then show ?case by simp
next
  case (Cons f files)
  show ?case
  proof (cases "cur + need \<le> maxB")
    case True
    then show ?thesis by simp
  next
    case False
    show ?thesis
    proof (cases "unlinkSync d (fst f)")
      case (Inl e)
      then show ?thesis using False Cons.IH [of d cur] by simp
    next
      case (Inr d1)
      then have d1: "d1 = d\<lparr>entries := removeAll (fst f) (entries d)\<rparr>" "removable d (fst f)"
        by (auto simp: unlinkSync_def split: if_splits)
      have step: "evict_loop maxB need (f # files) (d, cur)
          = evict_loop maxB need files (d1, cur - fsize (snd f))"
        using False Inr by simp
      show ?thesis
        using Cons.IH [of d1 "cur - fsize (snd f)"] d1
        by (simp only: step) auto
    qed
  qed
qed

section \<open>Eviction before a write\<close>

text \<open>
  Claim C2, as the code has it. In a cache directory whose entries can all be stat'ed and
  removed, \<open>evictOldestFiles\<close> for an incoming file of \<open>n\<close> bytes removes the first \<open>k\<close>
  entries of the eviction order, for some \<open>k\<close>. That order is by modification time,
  oldest first, and entries of equal time keep the order of the directory listing. Before
  each removal the running total plus \<open>n\<close> exceeds the cap (\<open>cacheMaxSizeMB * 1024 * 1024\<close>);
  afterwards the directory total plus \<open>n\<close> is at most the cap, or the directory is empty.
  No removed entry is younger than one that remains, and nothing is removed when the total
  plus \<open>n\<close> fits. \<open>downloadMedia\<close> writes the fetched file into the directory that the
  eviction leaves.
\<close>

theorem eviction_oldest_first:
  assumes h: "healthy d" and cap: "cap = cacheMaxSizeMB (media cfg) * 1024 * 1024"
  shows "\<exists>k d'. evictOldestFiles cfg n (Some d) = Some d'
      \<and> entries d' = filter (\<lambda>f. f \<notin> set (take k (eviction_order d))) (entries d)
      \<and> sorted (map (mtime_of d) (eviction_order d))
      \<and> (\<forall>t. filter (\<lambda>f. mtime_of d f = t) (eviction_order d)
              = filter (\<lambda>f. mtime_of d f = t) (entries d))
      \<and> (\<forall>j < k. getCacheDirSize (Some d)
              - sum_list (map (size_of d) (take j (eviction_order d))) + n > cap)
      \<and> (getCacheDirSize (Some d') + n \<le> cap \<or> entries d' = [])
      \<and> (\<forall>e \<in> set (entries d) - set (entries d'). \<forall>r \<in> set (entries d').
            mtime_of d e \<le> mtime_of d r)
      \<and> (getCacheDirSize (Some d) + n \<le> cap \<longrightarrow> d' = d)
      \<and> (fetched env = FetchOk m \<and> n = int m \<longrightarrow>
            downloadMedia env cfg ext (Some d) =
              (case writeFileSync env d' (uuid env @ ext) m of
                 Inl _ \<Rightarrow> (None, Some d')
               | Inr d'' \<Rightarrow> (Some (path_join (cachePath (media cfg)) (uuid env @ ext)), Some d'')))"
proof -
  let ?o = "eviction_order d"
  obtain k where k: "k \<le> length (entries d)"
    "evictOldestFiles cfg n (Some d)
        = Some (d\<lparr>entries := filter (\<lambda>f. f \<notin> set (take k ?o)) (entries d)\<rparr>)"
    "getCacheDirSize (Some d) - sum_list (map (size_of d) (take k ?o)) + n \<le> cap
        \<or> k = length (entries d)"
    "\<forall>j < k. getCacheDirSize (Some d) - sum_list (map (size_of d) (take j ?o)) + n > cap"
    using evict_healthy [OF h cap refl, of n] by blast
  let ?d' = "d\<lparr>entries := filter (\<lambda>f. f \<notin> set (take k ?o)) (entries d)\<rparr>"
  have set: "set ?o = set (entries d)" and dist: "distinct ?o"
    using sorted_files(1,2) [OF h] by (simp_all add: eviction_order_def)
  have len: "length ?o = length (entries d)"
    by (simp add: eviction_order_def healthy_stat_files [OF h])
  have sorted: "sorted (map (mtime_of d) ?o)" using h by (rule order_sorted)
  have size': "getCacheDirSize (Some ?d')
      = getCacheDirSize (Some d) - sum_list (map (size_of d) (take k ?o))"
    using remaining_size [OF h, of k] dir_size_entries [of ?d' d]
    by (simp add: dir_size)
  have fits: "getCacheDirSize (Some ?d') + n \<le> cap \<or> entries ?d' = []"
  proof (cases "k = length (entries d)")
    case True
    then have "take k ?o = ?o" using len by simp
    then have "entries ?d' = []" using set by (simp add: filter_empty_conv)
    then show ?thesis by simp
  next
    case False
    then show ?thesis using k(3) size' by simp
  qed
  have older: "\<forall>e \<in> set (entries d) - set (entries ?d'). \<forall>r \<in> set (entries ?d').
      mtime_of d e \<le> mtime_of d r"
  proof (intro ballI)
    fix e r
    assume e: "e \<in> set (entries d) - set (entries ?d')" and r: "r \<in> set (entries ?d')"
    from e have e': "e \<in> set (take k ?o)" by auto
    from r have "r \<in> set ?o" "r \<notin> set (take k ?o)" using set by auto
    then have r': "r \<in> set (drop k ?o)"
      by (metis Un_iff append_take_drop_id set_append)
    have "sorted (map (mtime_of d) (take k ?o) @ map (mtime_of d) (drop k ?o))"
      using sorted by (metis append_take_drop_id map_append)
    then show "mtime_of d e \<le> mtime_of d r"
      using e' r' by (auto simp: sorted_append)
  qed
  have same: "getCacheDirSize (Some d) + n \<le> cap \<longrightarrow> ?d' = d"
  proof
    assume "getCacheDirSize (Some d) + n \<le> cap"
    then have "k = 0" using k(4) by (cases k) auto
    then show "?d' = d" by simp
  qed
  have dl: "fetched env = FetchOk m \<and> n = int m \<longrightarrow>
      downloadMedia env cfg ext (Some d) =
        (case writeFileSync env ?d' (uuid env @ ext) m of
           Inl _ \<Rightarrow> (None, Some ?d')
         | Inr d'' \<Rightarrow> (Some (path_join (cachePath (media cfg)) (uuid env @ ext)), Some d''))"
    using k(2) by (auto simp: downloadMedia_def ensureCacheDir_def Let_def split: sum.splits)
  show ?thesis
    using k(2,4) sorted order_stable [OF h] fits older same dl
    by (intro exI [of _ k] exI [of _ ?d']) simp
qed

theorem eviction_oldest_first_witness:
  "healthy (example_dir True)
   \<and> map_option entries (evictOldestFiles example_config 100000 (Some (example_dir True)))
       = Some [js ''new'']
   \<and> eviction_order (example_dir True) = [js ''old'', js ''new'']
   \<and> (\<exists>k d'. evictOldestFiles example_config 100000 (Some (example_dir True)) = Some d'
        \<and> entries d' = filter (\<lambda>f. f \<notin> set (take k (eviction_order (example_dir True))))
            (entries (example_dir True))
        \<and> getCacheDirSize (Some d') + 100000 \<le> 1048576)"
proof -
  have h: "healthy (example_dir True)"
    by (simp add: healthy_def example_dir_def js_def)
  have c: "(1048576::int) = cacheMaxSizeMB (media example_config) * 1024 * 1024"
    by (simp add: example_config_def)
  have o: "eviction_order (example_dir True) = [js ''old'', js ''new'']"
    by (simp add: eviction_order_def stat_files_def example_dir_def statSync_def js_def
        map_filter_simps)
  have e: "map_option entries (evictOldestFiles example_config 100000 (Some (example_dir True)))
       = Some [js ''new'']"
    by (simp add: evictOldestFiles_def getCacheDirSize_def stat_files_def example_dir_def
        example_config_def statSync_def unlinkSync_def js_def map_filter_simps)
  then have ne: "\<And>d'. evictOldestFiles example_config 100000 (Some (example_dir True)) = Some d'
      \<Longrightarrow> entries d' \<noteq> []" by auto
  show ?thesis
    using h o e eviction_oldest_first [OF h c, of 100000] ne by blast
qed

text \<open>
  The claim as stated fails where a deletion throws: the loop skips that entry and goes on
  to the next. Here the older file cannot be removed; the younger one is evicted while the
  strictly older one remains.
\<close>

theorem eviction_skips_undeletable:
  "map_option entries (evictOldestFiles example_config 100000 (Some (example_dir False)))
     = Some [js ''old'']
   \<and> mtime_of (example_dir False) (js ''old'') < mtime_of (example_dir False) (js ''new'')
   \<and> getCacheDirSize (Some (example_dir False)) + 100000
       > cacheMaxSizeMB (media example_config) * 1024 * 1024"
  by (simp add: evictOldestFiles_def getCacheDirSize_def stat_files_def example_dir_def
      example_config_def statSync_def unlinkSync_def js_def map_filter_simps mtime_of_def)

section \<open>The expiry sweep\<close>

text \<open>
  What the sweep does on a directory: it deletes exactly the entries whose age
  \<open>now - mtimeMs\<close> exceeds \<open>cacheTTLMinutes * 60 * 1000\<close> and that can be stat'ed and
  deleted; the other entries stay, in their order. A missing directory is left as it is.
  While the time to live is between 1 and 35791 minutes, the sweep runs with that time as
  its period.
\<close>

lemma sweep_deletes_expired:
  "cleanExpiredCache cfg now None = None
   \<and> evictOldestFiles cfg n None = None
   \<and> (\<exists>d'. cleanExpiredCache cfg now (Some d) = Some d'
         \<and> entries d' = filter (\<lambda>f. \<not> sweeps now (cacheTTLMinutes (media cfg) * 60 * 1000) d f)
             (entries d)
         \<and> stat_of d' = stat_of d \<and> removable d' = removable d)"
proof -
  have "entries (sweep_loop now (cacheTTLMinutes (media cfg) * 60 * 1000) (entries d) d)
      = filter (\<lambda>f. \<not> sweeps now (cacheTTLMinutes (media cfg) * 60 * 1000) d f) (entries d)"
    by (simp add: sweep_loop_entries cong: filter_cong)
  then show ?thesis
    by (simp add: cleanExpiredCache_def evictOldestFiles_def Let_def sweep_loop_frame)
qed

lemma sweep_period_in_range:
  "cacheEnabled (media cfg) \<Longrightarrow> 1 \<le> cacheTTLMinutes (media cfg) \<Longrightarrow>
   cacheTTLMinutes (media cfg) \<le> 35791 \<Longrightarrow>
   startCacheCleanup cfg timer = Some (cacheTTLMinutes (media cfg) * 60 * 1000)"
  by (simp add: startCacheCleanup_def setInterval_def Let_def)

text \<open>
  Claim C8 does not hold of the code. \<open>startCacheCleanup\<close> hands
  \<open>cacheTTLMinutes * 60 * 1000\<close> to \<open>setInterval\<close>, which takes a delay of at most
  \<open>2^31 - 1\<close> milliseconds and sets a greater one to 1. With a time to live of 30 days
  (43200 minutes, 2592000000 milliseconds) and the cache enabled, the sweep runs every
  millisecond, not every 30 days; with the 60 minutes of the default it runs every 3600000
  milliseconds.
\<close>

theorem sweep_period_overflows:
  "cacheEnabled (media month_config)
   \<and> cacheTTLMinutes (media month_config) = 43200
   \<and> cacheTTLMinutes (media month_config) * 60 * 1000 = 2592000000
   \<and> startCacheCleanup month_config None = Some 1
   \<and> startCacheCleanup example_config None = Some 3600000"
  by (simp add: startCacheCleanup_def setInterval_def month_config_def example_config_def)

section \<open>Sending a reply: lemmas\<close>

lemma action_call_ok:
  "call_throws env = (\<lambda>k. None) \<Longrightarrow>
   action_call env c w =
     (Returned (), w\<lparr>clock := clock w + call_ms env (ncalls w), ncalls := Suc (ncalls w),
                     sent := sent w @ [(clock w + call_ms env (ncalls w), c)]\<rparr>)"
  by (simp add: action_call_def Let_def)

lemma chunk_loop_sends:
  assumes ok: "call_throws env = (\<lambda>k. None)" and big: "1 < total_n"
  shows "i = 3000 * k \<Longrightarrow>
    fst (chunk_loop env action idVal prefixSegs cleanText total_n i w) = Returned ()
    \<and> map snd (sent (snd (chunk_loop env action idVal prefixSegs cleanText total_n i w)))
        = map snd (sent w)
          @ map (chunk_message action idVal prefixSegs cleanText total_n)
              [k ..< (length cleanText + 2999) div 3000]"
proof (induction "length cleanText - i" arbitrary: i k w rule: less_induct)
  case less
  note ik = less.prems
  show ?case
  proof (cases "i < length cleanText")
    case False
    then have "(length cleanText + 2999) div 3000 \<le> k" using ik by simp
    then show ?thesis using False by (simp add: chunk_loop.simps)
  next
    case True
    then have lt: "k < (length cleanText + 2999) div 3000" using ik by simp
    let ?segs = "(if i = 0 then prefixSegs else [])
        @ [SegText (js ''['' @ digits (i div 3000 + 1) @ js ''/'' @ digits total_n @ js '']''
             @ [0x0A] @ take 3000 (drop i cleanText))]"
    let ?w1 = "w\<lparr>clock := clock w + call_ms env (ncalls w), ncalls := Suc (ncalls w),
        sent := sent w @ [(clock w + call_ms env (ncalls w), SendMsg action idVal ?segs)]\<rparr>"
    define w2 where "w2 = (if i + 3000 < length cleanText then sleep 1000 ?w1 else ?w1)"
    have call: "action_call env (SendMsg action idVal ?segs) w = (Returned (), ?w1)"
      by (rule action_call_ok [OF ok])
    have step: "chunk_loop env action idVal prefixSegs cleanText total_n i w
        = chunk_loop env action idVal prefixSegs cleanText total_n (i + 3000) w2"
      using True big call unfolding w2_def
      by (subst chunk_loop.simps) (simp add: Let_def)
    have msg: "SendMsg action idVal ?segs
        = chunk_message action idVal prefixSegs cleanText total_n k"
      using ik by (simp add: chunk_message_def)
    have sent2: "map snd (sent w2)
        = map snd (sent w) @ [chunk_message action idVal prefixSegs cleanText total_n k]"
      unfolding w2_def msg [symmetric] by (simp add: sleep_def)
    have "length cleanText - (i + 3000) < length cleanText - i" using True by simp
    moreover have "i + 3000 = 3000 * Suc k" using ik by simp
    ultimately have ih:
      "fst (chunk_loop env action idVal prefixSegs cleanText total_n (i + 3000) w2)
          = Returned ()
        \<and> map snd (sent (snd (chunk_loop env action idVal prefixSegs cleanText total_n
            (i + 3000) w2)))
          = map snd (sent w2)
            @ map (chunk_message action idVal prefixSegs cleanText total_n)
                [Suc k ..< (length cleanText + 2999) div 3000]"
      by (rule less.hyps)
    show ?thesis
      using ih lt by (simp add: step sent2 upt_conv_Cons)
  qed
qed

lemma scan_media_no_match:
  "\<forall>c \<in> set s. \<not> is_line_terminator c \<Longrightarrow> scan_media False 0 s = ([], s)"
  by (induction s) auto

lemma scan_media_plain:
  assumes "\<forall>c \<in> set s. \<not> is_line_terminator c" and "\<not> startsWith s (js ''MEDIA:'')"
  shows "scan_media True 0 s = ([], s)"
proof (cases s)
  case Nil
  then show ?thesis by simp
next
  case (Cons c cs)
  then have "scan_media (is_line_terminator c) 0 cs = ([], cs)"
    using assms(1) scan_media_no_match [of cs] by simp
  then show ?thesis using Cons assms(2) by simp
qed

lemma trim_id:
  assumes "s \<noteq> []" and "\<not> is_space (hd s)" and "\<not> is_space (last s)"
  shows "trim s = s"
proof -
  have "dropWhile is_space s = s" using assms(1,2) by (cases s) auto
  moreover have "dropWhile is_space (rev s) = rev s"
    using assms(1,3) by (cases "rev s") (auto simp: last_rev [symmetric] hd_rev)
  ultimately show ?thesis by (simp add: trim_def)
qed

lemma slices_concat:
  "concat (map (\<lambda>k. take m (drop (m * k) xs)) [0 ..< t]) = take (m * t) xs"
proof (induction t)
  case 0
  then show ?case by simp
next
  case (Suc t)
  have "m * Suc t = m * t + m" by simp
  then have "take (m * Suc t) xs = take (m * t) xs @ take m (drop (m * t) xs)"
    by (simp only: take_add)
  then show ?case using Suc by simp
qed

lemma scan_media_skip:
  "0 < k \<Longrightarrow> scan_media b k (c # cs) = scan_media False (k - 1) cs"
  by (cases k) simp_all

section \<open>Long replies are sent in chunks\<close>

text \<open>
  Claim C10, as the code has it. While no call of the message bus throws, \<open>sendReply\<close>
  returns after sending the text and then the media. A cleaned text of more than 3000
  characters is sent as \<open>ceil(length / 3000)\<close> messages in order, one for each
  consecutive slice of 3000 characters, each text starting with \<open>[i/total]\<close> and a line
  feed, the prefix segments on the first message only; the slices put together are the
  cleaned text. A cleaned text that is not empty and has at most 3000 characters is sent as
  exactly one message, the prefix segments before the text. For an empty cleaned text no
  text message is sent.
\<close>

theorem reply_chunking:
  assumes ok: "call_throws env = (\<lambda>k. None)"
    and act: "action = (if messageType = js ''group'' then js ''send_group_msg''
                        else js ''send_private_msg'')"
    and idv: "idVal = to_str (if messageType = js ''group'' then groupId else userId)"
    and ps: "prefixSegs = prefix_segments cfg messageType userId eventMessageId"
    and ct: "cleanText = clean_text cfg messageType userId prefixSegs text"
    and tn: "total_n = (length cleanText + 2999) div 3000"
    and w': "w' = snd (send_text env action idVal prefixSegs cleanText w)"
  shows "sendReply env cfg messageType groupId userId text eventMessageId w
           = (Returned (), send_media env messageType action idVal (media_files text) w')
    \<and> (3000 < length cleanText \<longrightarrow>
          map snd (sent w') = map snd (sent w)
            @ map (chunk_message action idVal prefixSegs cleanText total_n) [0 ..< total_n]
          \<and> concat (map (\<lambda>k. take 3000 (drop (3000 * k) cleanText)) [0 ..< total_n]) = cleanText
          \<and> 3000 * (total_n - 1) < length cleanText \<and> length cleanText \<le> 3000 * total_n)
    \<and> (0 < length cleanText \<and> length cleanText \<le> 3000 \<longrightarrow>
          map snd (sent w') = map snd (sent w)
            @ [SendMsg action idVal (prefixSegs @ [SegText cleanText])])
    \<and> (cleanText = [] \<longrightarrow> w' = w)"
proof -
  have short: "0 < length cleanText \<and> length cleanText \<le> 3000 \<longrightarrow>
      fst (send_text env action idVal prefixSegs cleanText w) = Returned ()
      \<and> map snd (sent w') = map snd (sent w)
            @ [SendMsg action idVal (prefixSegs @ [SegText cleanText])]"
    unfolding w' by (auto simp: send_text_def action_call_ok [OF ok])
  have long: "3000 < length cleanText \<longrightarrow>
      fst (send_text env action idVal prefixSegs cleanText w) = Returned ()
      \<and> map snd (sent w') = map snd (sent w)
            @ map (chunk_message action idVal prefixSegs cleanText total_n) [0 ..< total_n]"
  proof
    assume l: "3000 < length cleanText"
    then have big: "1 < total_n" unfolding tn by simp
    have "send_text env action idVal prefixSegs cleanText w
        = chunk_loop env action idVal prefixSegs cleanText total_n 0 w"
      using l by (auto simp: send_text_def tn)
    then show "fst (send_text env action idVal prefixSegs cleanText w) = Returned ()
      \<and> map snd (sent w') = map snd (sent w)
            @ map (chunk_message action idVal prefixSegs cleanText total_n) [0 ..< total_n]"
      using chunk_loop_sends [OF ok big, of 0 0 action idVal prefixSegs cleanText w]
      unfolding w' tn by simp
  qed
  have none: "cleanText = [] \<longrightarrow>
      fst (send_text env action idVal prefixSegs cleanText w) = Returned () \<and> w' = w"
    unfolding w' by (simp add: send_text_def)
  have ret: "fst (send_text env action idVal prefixSegs cleanText w) = Returned ()"
    using short long none by (cases "cleanText = []"; cases "length cleanText \<le> 3000") auto
  have reply: "sendReply env cfg messageType groupId userId text eventMessageId w
           = (Returned (), send_media env messageType action idVal (media_files text) w')"
    using ret unfolding w' sendReply_def Let_def act [symmetric] idv [symmetric]
      ps [symmetric] ct [symmetric]
    by (cases "send_text env action idVal prefixSegs cleanText w") auto
  have "3000 * total_n \<ge> length cleanText" unfolding tn by simp
  then have cc: "concat (map (\<lambda>k. take 3000 (drop (3000 * k) cleanText)) [0 ..< total_n])
      = cleanText"
    by (simp add: slices_concat)
  have ar: "3000 < length cleanText \<longrightarrow>
      3000 * (total_n - 1) < length cleanText \<and> length cleanText \<le> 3000 * total_n"
    unfolding tn by auto
  show ?thesis using reply short long none cc ar by simp
qed

theorem reply_chunking_witness:
  "call_throws (steady_bus 0) = (\<lambda>k. None)
   \<and> clean_text example_config (js ''private'') (IdNum 5) [] (replicate 3001 0x61)
       = replicate 3001 0x61
   \<and> map snd (sent (snd (send_text (steady_bus 0) (js ''send_private_msg'') (js ''5'') []
        (replicate 3001 0x61) init_world)))
       = [SendMsg (js ''send_private_msg'') (js ''5'')
            [SegText (js ''[1/2]'' @ [0x0A] @ replicate 3000 0x61)],
          SendMsg (js ''send_private_msg'') (js ''5'')
            [SegText (js ''[2/2]'' @ [0x0A] @ replicate 1 0x61)]]
   \<and> map snd (sent (snd (send_text (steady_bus 0) (js ''send_private_msg'') (js ''5'') []
        (js ''hi'') init_world)))
       = [SendMsg (js ''send_private_msg'') (js ''5'') [SegText (js ''hi'')]]"
proof -
  have ok: "call_throws (steady_bus 0) = (\<lambda>k. None)" by (simp add: steady_bus_def)
  have act: "js ''send_private_msg'' = (if js ''private'' = js ''group''
      then js ''send_group_msg'' else js ''send_private_msg'')"
    by (simp add: js_def)
  have idv: "js ''5'' = to_str (if js ''private'' = js ''group'' then IdUndef else IdNum 5)"
    by (simp add: js_def string_of_int_def digits.simps)
  have ps: "[] = prefix_segments example_config (js ''private'') (IdNum 5) IdUndef"
    by (simp add: prefix_segments_def js_def)
  have plain: "scan_media True 0 (replicate 3001 (0x61::nat)) = ([], replicate 3001 0x61)"
    by (rule scan_media_plain)
      (simp_all add: is_line_terminator_def startsWith_def js_def numeral_eq_Suc)
  have tr: "trim (replicate 3001 (0x61::nat)) = replicate 3001 0x61"
    by (rule trim_id) (simp_all add: is_space_def is_line_terminator_def hd_replicate)
  have ct: "replicate 3001 0x61
      = clean_text example_config (js ''private'') (IdNum 5) [] (replicate 3001 0x61)"
    by (simp add: clean_text_def js_def plain tr)
  have ct2: "js ''hi'' = clean_text example_config (js ''private'') (IdNum 5) [] (js ''hi'')"
    by (simp add: clean_text_def js_def trim_def is_space_def is_line_terminator_def
        startsWith_def)
  have tn: "(2::nat) = (length (replicate 3001 (0x61::nat)) + 2999) div 3000" by simp
  have tn2: "(1::nat) = (length (js ''hi'') + 2999) div 3000" by (simp add: js_def)
  have ch: "map (chunk_message (js ''send_private_msg'') (js ''5'') [] (replicate 3001 0x61) 2)
        [0 ..< 2]
      = [SendMsg (js ''send_private_msg'') (js ''5'')
            [SegText (js ''[1/2]'' @ [0x0A] @ replicate 3000 0x61)],
          SendMsg (js ''send_private_msg'') (js ''5'')
            [SegText (js ''[2/2]'' @ [0x0A] @ replicate 1 0x61)]]"
    by (simp add: chunk_message_def upt_conv_Cons js_def digits.simps)
  show ?thesis
    using reply_chunking [OF ok act idv ps ct tn refl, where w = init_world]
      reply_chunking [OF ok act idv ps ct2 tn2 refl, where w = init_world]
      ok ct [symmetric] ch
    by (simp add: init_world_def js_def)
qed

text \<open>
  The claim as stated fails for a reply that has only \<open>MEDIA:\<close> lines: its cleaned text
  is empty, of length at most 3000, and no message carries the prefix segments; the image
  is all that is sent.
\<close>

theorem media_only_reply_sends_no_text:
  "clean_text example_config (js ''group'') (IdNum 5)
       (prefix_segments example_config (js ''group'') (IdNum 5) (IdNum 9))
       (js ''MEDIA: /tmp/a.png'') = []
   \<and> prefix_segments example_config (js ''group'') (IdNum 5) (IdNum 9) = [SegAt (js ''5'')]
   \<and> map snd (sent (snd (sendReply (steady_bus 0) example_config (js ''group'') (IdNum 77)
        (IdNum 5) (js ''MEDIA: /tmp/a.png'') (IdNum 9) init_world)))
       = [SendMsg (js ''send_group_msg'') (js ''77'') [SegImage (js ''file:///tmp/a.png'')]]"
proof -
  have scan: "scan_media True 0 (js ''MEDIA: /tmp/a.png'') = ([js ''/tmp/a.png''], [])"
    by (simp add: js_def startsWith_def media_match_def is_space_def is_line_terminator_def
        scan_media_skip Let_def)
  have ps: "prefix_segments example_config (js ''group'') (IdNum 5) (IdNum 9) = [SegAt (js ''5'')]"
    by (simp add: prefix_segments_def example_config_def js_def string_of_int_def digits.simps)
  have ct: "clean_text example_config (js ''group'') (IdNum 5) [SegAt (js ''5'')]
      (js ''MEDIA: /tmp/a.png'') = []"
    by (simp add: clean_text_def scan trim_def at_match_def example_config_def)
  have mf: "media_files (js ''MEDIA: /tmp/a.png'') = [js ''/tmp/a.png'']"
    unfolding media_files_def scan
    by (simp add: trim_def js_def is_space_def is_line_terminator_def)
  have img: "toLowerCase (extname (basename (js ''/tmp/a.png''))) \<in> set imageExts"
    by (simp add: js_def basename_def extname_def toLowerCase_def imageExts_def)
  have "map snd (sent (snd (sendReply (steady_bus 0) example_config (js ''group'') (IdNum 77)
        (IdNum 5) (js ''MEDIA: /tmp/a.png'') (IdNum 9) init_world)))
       = [SendMsg (js ''send_group_msg'') (js ''77'') [SegImage (js ''file:///tmp/a.png'')]]"
    by (simp add: sendReply_def Let_def ps ct mf send_text_def img action_call_def
        steady_bus_def init_world_def)
       (simp add: js_def string_of_int_def digits.simps)
  then show ?thesis using ps ct by simp
qed

section \<open>Time between two sends\<close>

text \<open>
  Claim C7 does not hold of the code. \<open>sendReply\<close> calls the message bus directly: there
  is no queue and no interval of 2 seconds. On a bus that answers at once, the two chunks
  of a reply of 3001 characters are sent at the times 0 and 1000 milliseconds, the
  \<open>sleep(1000)\<close> between the chunks being the only pause.
\<close>

theorem long_reply_chunks_one_second_apart:
  "map fst (sent (snd (sendReply (steady_bus 0) example_config (js ''private'') IdUndef
      (IdNum 5) (replicate 3001 0x61) IdUndef init_world))) = [0, 1000]"
proof -
  have priv: "js ''private'' \<noteq> js ''group''" by (simp add: js_def)
  have plain: "scan_media True 0 (replicate 3001 (0x61::nat)) = ([], replicate 3001 0x61)"
    by (rule scan_media_plain)
      (simp_all add: is_line_terminator_def startsWith_def js_def numeral_eq_Suc)
  have tr: "trim (replicate 3001 (0x61::nat)) = replicate 3001 0x61"
    by (rule trim_id) (simp_all add: is_space_def is_line_terminator_def hd_replicate)
  have ct: "clean_text example_config (js ''private'') (IdNum 5) [] (replicate 3001 0x61)
      = replicate 3001 0x61"
    by (simp add: clean_text_def priv plain tr)
  have mf: "media_files (replicate 3001 (0x61::nat)) = []"
    by (simp add: media_files_def plain)
  have ps: "prefix_segments example_config (js ''private'') (IdNum 5) IdUndef = []"
    by (simp add: prefix_segments_def priv)
  let ?loop = "chunk_loop (steady_bus 0) (js ''send_private_msg'') (to_str (IdNum 5)) []
      (replicate 3001 (0x61::nat)) 2 0 init_world"
  have times: "map fst (sent (snd ?loop)) = [0, 1000]"
    apply (subst chunk_loop.simps)
    apply (simp add: action_call_def steady_bus_def sleep_def init_world_def Let_def)
    apply (subst chunk_loop.simps)
    apply (simp add: action_call_def steady_bus_def sleep_def init_world_def Let_def)
    apply (subst chunk_loop.simps)
    apply simp
    done
  have "fst ?loop = Returned ()"
    using chunk_loop_sends [of "steady_bus 0" 2 0 0 "js ''send_private_msg''"
        "to_str (IdNum 5)" "[]" "replicate 3001 0x61" init_world]
    by (simp add: steady_bus_def)
  then obtain w' where w': "?loop = (Returned (), w')" by (metis prod.collapse)
  then have "sendReply (steady_bus 0) example_config (js ''private'') IdUndef
      (IdNum 5) (replicate 3001 0x61) IdUndef init_world = (Returned (), w')"
    by (simp add: sendReply_def Let_def priv ps ct mf send_text_def)
  then show ?thesis using times w' by simp
qed

section \<open>Handling a message: lemmas\<close>









lemma example_handled:
  "should_handle (example_env c r) example_config (IdNum 999) (text_event t)"
  by (simp add: should_handle_def example_config_def text_event_def listed_def js_def Let_def)

lemma example_extract_a: "extractMessage (IdNum 999) (the (segments (text_event ''a''))) = (js ''a'', [], None)"
  by (simp add: extractMessage_def extract_segment_def text_event_def js_def trim_def
      is_space_def is_line_terminator_def)

lemma example_extract_b: "extractMessage (IdNum 999) (the (segments (text_event ''b''))) = (js ''b'', [], None)"
  by (simp add: extractMessage_def extract_segment_def text_event_def js_def trim_def
      is_space_def is_line_terminator_def)

lemma example_message:
  assumes ex: "extractMessage (IdNum 999) (the (segments (text_event t))) = (js t, [], None)"
    and t: "js t \<noteq> []" "\<not> startsWith (js t) (js ''/'')"
    and st: "logger_set st" "currentConfig st = example_config" "sessionEpochs st = Map.empty"
      "botUserId st = IdNull \<or> botUserId st = IdNum 999"
  shows "\<exists>st'. plugin_onmessage (example_env (Returned ()) r) (text_event t) (st, w)
      = (st', w\<lparr>clock := clock w,
                 ncalls := Suc (ncalls w),
                 sent := sent w @ [(clock w, SetInputStatus (js ''123'') True)],
                 requests := requests w @ [(js ''qq-123'', example_header @ [0x0A] @ js t)]\<rparr>)
      \<and> logger_set st' \<and> currentConfig st' = example_config
      \<and> sessionEpochs st' = Map.empty \<and> botUserId st' = IdNum 999"
proof -
  have bot: "(if \<not> truthy (botUserId st) \<and> truthy (self_id (text_event t))
      then st\<lparr>botUserId := self_id (text_event t)\<rparr> else st) = st\<lparr>botUserId := IdNum 999\<rparr>"
    using st(4) by (auto simp: text_event_def)
  have segs: "(case segments (text_event t) of None \<Rightarrow> [] | Some segs \<Rightarrow> segs)
      = the (segments (text_event t))"
    by (simp add: text_event_def)
  have fields: "post_type (text_event t) = js ''message''" "user_id (text_event t) = IdNum 123"
    "message_type (text_event t) = js ''private''" "group_id (text_event t) = IdUndef"
    "message_id (text_event t) = IdNum 7" "nickname (text_event t) = Some (js ''Ann'')"
    by (simp_all add: text_event_def)
  have priv: "js ''private'' \<noteq> js ''group''" "js ''Ann'' \<noteq> []" by (simp_all add: js_def)
  have base: "getSessionBase example_config (js ''private'') (IdNum 123) IdUndef = js ''qq-123''"
    by (simp add: getSessionBase_def js_def string_of_int_def digits.simps)
  have key: "getSessionKey Map.empty (js ''qq-123'') = js ''qq-123''"
    by (simp add: getSessionKey_def epoch_of_def)
  have hdr: "identity_header (js ''Ann'') (IdNum 123) (js ''private'') IdUndef [] = example_header"
    by (simp add: identity_header_def example_header_def priv js_def string_of_int_def
        digits.simps)
  have typing: "action_call (bus (example_env (Returned ()) r))
        (SetInputStatus (to_str (IdNum 123)) True) w
      = (Returned (), w\<lparr>clock := clock w, ncalls := Suc (ncalls w),
            sent := sent w @ [(clock w, SetInputStatus (js ''123'') True)]\<rparr>)"
    by (simp add: action_call_def example_env_def steady_bus_def Let_def js_def
        string_of_int_def digits.simps)
  have gw: "gateway_try (example_env (Returned ()) r) example_config (js ''private'') IdUndef
        (IdNum 123) (IdNum 7) k m w'
      = (Returned (), w'\<lparr>requests := requests w' @ [(k, m)]\<rparr>)" for k m w'
    by (simp add: gateway_try_def example_env_def Let_def)
  show ?thesis
    unfolding plugin_onmessage_def
    using st(1,2,3) t
    by (simp add: Let_def bot fields segs ex example_handled priv base key hdr typing gw
        build_message_def example_config_def [symmetric])
      (simp add: example_config_def example_env_def action_call_def steady_bus_def Let_def
        string_of_int_def digits.simps js_def)
qed


















section \<open>Fallback to the command line client\<close>




section \<open>Messages in quick succession\<close>

text \<open>
  Claim C6 does not hold of the code. \<open>plugin_onmessage\<close> handles every inbound message on
  its own and at once: it keeps no buffer and starts no timer, and \<open>debounceMs\<close> is read
  nowhere but in the configuration hooks. Two private messages \<open>a\<close> and \<open>b\<close> of one user,
  however close in time, give two \<open>chat.send\<close> requests for the same session key, with
  the configured window at 2000 milliseconds.
\<close>

theorem each_message_is_its_own_request:
  "debounceMs (behavior (currentConfig example_state)) = 2000
   \<and> requests (snd (plugin_onmessage (example_env (Returned ()) (Returned [])) (text_event ''b'')
        (plugin_onmessage (example_env (Returned ()) (Returned [])) (text_event ''a'')
          (example_state, init_world))))
     = [(js ''qq-123'', example_header @ [0x0A] @ js ''a''),
        (js ''qq-123'', example_header @ [0x0A] @ js ''b'')]"
proof -
  let ?env = "example_env (Returned ()) (Returned [])"
  have ta: "js ''a'' \<noteq> []" "\<not> startsWith (js ''a'') (js ''/'')"
    and tb: "js ''b'' \<noteq> []" "\<not> startsWith (js ''b'') (js ''/'')"
    by (simp_all add: js_def startsWith_def)
  have s0: "logger_set example_state" "currentConfig example_state = example_config"
    "sessionEpochs example_state = Map.empty"
    "botUserId example_state = IdNull \<or> botUserId example_state = IdNum 999"
    by (simp_all add: example_state_def)
  obtain st1 where one: "plugin_onmessage ?env (text_event ''a'') (example_state, init_world)
      = (st1, init_world\<lparr>clock := clock init_world, ncalls := Suc (ncalls init_world),
           sent := sent init_world @ [(clock init_world, SetInputStatus (js ''123'') True)],
           requests := requests init_world
             @ [(js ''qq-123'', example_header @ [0x0A] @ js ''a'')]\<rparr>)"
    and s1: "logger_set st1" "currentConfig st1 = example_config"
      "sessionEpochs st1 = Map.empty" "botUserId st1 = IdNum 999"
    using example_message [OF example_extract_a ta s0, of "Returned []" init_world] by blast
  let ?w1 = "init_world\<lparr>clock := clock init_world, ncalls := Suc (ncalls init_world),
           sent := sent init_world @ [(clock init_world, SetInputStatus (js ''123'') True)],
           requests := requests init_world
             @ [(js ''qq-123'', example_header @ [0x0A] @ js ''a'')]\<rparr>"
  have s1': "botUserId st1 = IdNull \<or> botUserId st1 = IdNum 999" using s1(4) by simp
  obtain st2 where two: "plugin_onmessage ?env (text_event ''b'') (st1, ?w1)
      = (st2, ?w1\<lparr>clock := clock ?w1, ncalls := Suc (ncalls ?w1),
           sent := sent ?w1 @ [(clock ?w1, SetInputStatus (js ''123'') True)],
           requests := requests ?w1 @ [(js ''qq-123'', example_header @ [0x0A] @ js ''b'')]\<rparr>)"
    using example_message [OF example_extract_b tb s1(1,2,3) s1', of "Returned []" ?w1] by blast
  show ?thesis
    by (simp only: one two) (simp add: init_world_def example_state_def example_config_def)
qed

end
